theory Spec2Isabelle
  imports Main "HOL-Library.Char_ord" "HOL-Library.List_Lexorder" "HOL-Library.Sublist"
begin

section \<open>The Python runtime the analysis relies on\<close>

text \<open>
  The analysis functions of \<^verbatim>\<open>app.py\<close> work on plain strings and call three pieces of
  the standard library: \<^verbatim>\<open>datetime.fromisoformat\<close>, datetime arithmetic and the built-in
  \<^verbatim>\<open>round\<close>. Strings are modelled as \<^typ>\<open>string\<close>, one \<^typ>\<open>char\<close> per code point
  (code points below 256; the timestamps of the event feed are ASCII), ordered as Python
  orders \<^verbatim>\<open>str\<close>: lexicographically by code point.
\<close>

datatype error = ValueError | TypeError | OverflowError

text \<open>
  A \<^verbatim>\<open>datetime\<close> object. \<open>utcoffset\<close> is the offset of an aware datetime in
  microseconds, \<open>None\<close> for a naive one.
\<close>

record datetime =
  year :: int
  month :: int
  day :: int
  hour :: int
  minute :: int
  second :: int
  microsecond :: int
  utcoffset :: "int option"

text \<open>
  Three library calls do not have one behaviour on every installation. The grammar that
  \<^verbatim>\<open>datetime.fromisoformat\<close> accepts differs between Python releases;
  \<^verbatim>\<open>strftime('%Y-%m-%d')\<close> is the C library's and writes a year below 1000 with four
  digits on some platforms and without leading zeros on others; and \<^verbatim>\<open>round(x, 1)\<close>
  rounds the binary double \<open>x\<close>, so that its result on an exact decimal tie depends on
  the representation error of \<open>x\<close>. All three are parameters of the model:
  \<open>fromisoformat\<close> returns \<open>None\<close> where the library raises \<^verbatim>\<open>ValueError\<close>,
  \<open>strftime_ymd\<close> is the platform's \<^verbatim>\<open>strftime('%Y-%m-%d')\<close>, and \<open>round_half_up us\<close>
  says whether an elapsed time of \<open>us\<close> microseconds that lies exactly between two tenths
  of an hour is rounded upwards.
\<close>

record pyrt =
  fromisoformat :: "string \<Rightarrow> datetime option"
  strftime_ymd :: "datetime \<Rightarrow> string"
  round_half_up :: "int \<Rightarrow> bool"

text \<open>\<^verbatim>\<open>s.replace('Z', '+00:00')\<close>: every occurrence is replaced.\<close>

definition replace_Z :: "string \<Rightarrow> string" where
  "replace_Z s = concat (map (\<lambda>c. if c = CHR ''Z'' then ''+00:00'' else [c]) s)"

text \<open>The proleptic Gregorian calendar of the \<^verbatim>\<open>datetime\<close> module.\<close>

definition is_leap :: "int \<Rightarrow> bool" where
  "is_leap y = (y mod 4 = 0 \<and> (y mod 100 \<noteq> 0 \<or> y mod 400 = 0))"

definition days_in_month :: "int \<Rightarrow> int \<Rightarrow> int" where
  "days_in_month y m =
     (if m = 2 then (if is_leap y then 29 else 28)
      else if m = 4 \<or> m = 6 \<or> m = 9 \<or> m = 11 then 30 else 31)"

definition days_before_year :: "int \<Rightarrow> int" where
  "days_before_year y = (let p = y - 1 in p * 365 + p div 4 - p div 100 + p div 400)"

definition days_before_month :: "int \<Rightarrow> int \<Rightarrow> int" where
  "days_before_month y m =
     foldl (\<lambda>acc k. acc + days_in_month y k) 0 (map int [1 ..< nat m])"

definition toordinal :: "datetime \<Rightarrow> int" where
  "toordinal dt = days_before_year (year dt) + days_before_month (year dt) (month dt) + day dt"

text \<open>The microseconds between the start of the calendar and the wall-clock time of \<open>dt\<close>.\<close>

definition wall_clock_us :: "datetime \<Rightarrow> int" where
  "wall_clock_us dt =
     (((toordinal dt * 24 + hour dt) * 60 + minute dt) * 60 + second dt) * 1000000
       + microsecond dt"

text \<open>
  \<^verbatim>\<open>a - b\<close> on two datetimes, as the microseconds of the resulting \<^verbatim>\<open>timedelta\<close>. Two
  aware datetimes are compared in UTC; a naive and an aware one cannot be subtracted.
\<close>

definition dt_sub :: "datetime \<Rightarrow> datetime \<Rightarrow> error + int" where
  "dt_sub a b =
     (case (utcoffset a, utcoffset b) of
        (None, None) \<Rightarrow> Inr (wall_clock_us a - wall_clock_us b)
      | (Some oa, Some ob) \<Rightarrow> Inr ((wall_clock_us a - oa) - (wall_clock_us b - ob))
      | _ \<Rightarrow> Inl TypeError)"

text \<open>\<^verbatim>\<open>dt + timedelta(days=1)\<close>; the result must not leave the years 1 to 9999.\<close>

definition add_one_day :: "datetime \<Rightarrow> error + datetime" where
  "add_one_day dt =
     (if day dt < days_in_month (year dt) (month dt) then Inr (dt\<lparr>day := day dt + 1\<rparr>)
      else if month dt < 12 then Inr (dt\<lparr>month := month dt + 1, day := 1\<rparr>)
      else if year dt < 9999 then Inr (dt\<lparr>year := year dt + 1, month := 1, day := 1\<rparr>)
      else Inl OverflowError)"

text \<open>
  A \<^verbatim>\<open>strftime('%Y-%m-%d')\<close> that writes the year with four digits, the month and the
  day with two: what every platform prints for the years from 1000 on.
\<close>

definition digit_char :: "int \<Rightarrow> char" where
  "digit_char d = char_of (48 + nat d)"

definition pad2 :: "int \<Rightarrow> string" where
  "pad2 n = [digit_char (n div 10 mod 10), digit_char (n mod 10)]"

definition pad4 :: "int \<Rightarrow> string" where
  "pad4 n = pad2 (n div 100) @ pad2 (n mod 100)"

definition strftime_padded :: "datetime \<Rightarrow> string" where
  "strftime_padded dt = pad4 (year dt) @ ''-'' @ pad2 (month dt) @ ''-'' @ pad2 (day dt)"

text \<open>
  \<^verbatim>\<open>round(us / 3.6e9, 1)\<close> in tenths of an hour: the nearest tenth, and on an exact tie
  the neighbour the runtime picks.
\<close>

definition round_tenths :: "pyrt \<Rightarrow> int \<Rightarrow> int" where
  "round_tenths py us =
     (let q = us div 360000000; r = us mod 360000000
      in if r < 180000000 then q
         else if 180000000 < r then q + 1
         else if round_half_up py us then q + 1 else q)"

section \<open>Hour classification\<close>

text \<open>
  \<^verbatim>\<open>is_out_of_hours\<close> and \<^verbatim>\<open>is_business_hours\<close> wrap their body in a bare
  \<^verbatim>\<open>try: ... except: return False\<close>. The body is modelled first, with the exception as a
  value, then the handler.
\<close>

definition out_of_hours_body :: "pyrt \<Rightarrow> string \<Rightarrow> error + bool" where
  "out_of_hours_body py timestamp =
     (case fromisoformat py (replace_Z timestamp) of
        None \<Rightarrow> Inl ValueError
      | Some dt \<Rightarrow> Inr (hour dt \<ge> 18 \<or> hour dt < 6))"

definition is_out_of_hours :: "pyrt \<Rightarrow> string \<Rightarrow> bool" where
  "is_out_of_hours py timestamp =
     (case out_of_hours_body py timestamp of Inl e \<Rightarrow> False | Inr b \<Rightarrow> b)"

definition business_hours_body :: "pyrt \<Rightarrow> string \<Rightarrow> error + bool" where
  "business_hours_body py timestamp =
     (case fromisoformat py (replace_Z timestamp) of
        None \<Rightarrow> Inl ValueError
      | Some dt \<Rightarrow> Inr (6 \<le> hour dt \<and> hour dt < 18))"

definition is_business_hours :: "pyrt \<Rightarrow> string \<Rightarrow> bool" where
  "is_business_hours py timestamp =
     (case business_hours_body py timestamp of Inl e \<Rightarrow> False | Inr b \<Rightarrow> b)"

section \<open>A concrete runtime\<close>

text \<open>
  To run the model, \<open>iso_parse\<close> reads the timestamps of the event feed the way every
  release of \<^verbatim>\<open>fromisoformat\<close> does: \<^verbatim>\<open>YYYY-MM-DD\<close>, optionally followed by one
  separator character, \<^verbatim>\<open>HH:MM:SS\<close>, an optional fraction of three or six digits and an
  optional offset \<^verbatim>\<open>+HH:MM\<close> or \<^verbatim>\<open>-HH:MM\<close>. Every other string is rejected. The
  runtime \<open>py0\<close> parses with \<open>iso_parse\<close>, writes dates with \<open>strftime_padded\<close> and
  rounds a tie downwards.
\<close>

definition digit :: "char \<Rightarrow> int option" where
  "digit c = (if CHR ''0'' \<le> c \<and> c \<le> CHR ''9'' then Some (int (of_char c) - 48) else None)"

definition number :: "string \<Rightarrow> int option" where
  "number s =
     (if s = [] then None
      else foldl (\<lambda>acc c. case (acc, digit c) of (Some a, Some d) \<Rightarrow> Some (10 * a + d) | _ \<Rightarrow> None)
             (Some 0) s)"

definition parse_date :: "string \<Rightarrow> (int \<times> int \<times> int) option" where
  "parse_date s =
     (if length s = 10 \<and> s ! 4 = CHR ''-'' \<and> s ! 7 = CHR ''-'' then
        (case (number (take 4 s), number (take 2 (drop 5 s)), number (drop 8 s)) of
           (Some y, Some m, Some d) \<Rightarrow>
             if 1 \<le> y \<and> 1 \<le> m \<and> m \<le> 12 \<and> 1 \<le> d \<and> d \<le> days_in_month y m
             then Some (y, m, d) else None
         | _ \<Rightarrow> None)
      else None)"

definition parse_hms :: "string \<Rightarrow> (int \<times> int \<times> int) option" where
  "parse_hms s =
     (if length s = 8 \<and> s ! 2 = CHR '':'' \<and> s ! 5 = CHR '':'' then
        (case (number (take 2 s), number (take 2 (drop 3 s)), number (drop 6 s)) of
           (Some h, Some m, Some sec) \<Rightarrow>
             if h < 24 \<and> m < 60 \<and> sec < 60 then Some (h, m, sec) else None
         | _ \<Rightarrow> None)
      else None)"

definition parse_fraction :: "string \<Rightarrow> (int \<times> string) option" where
  "parse_fraction s =
     (case s of
        c # r \<Rightarrow>
          if c = CHR ''.'' then
            (case number (take 6 r) of
               Some f \<Rightarrow> if length r \<ge> 6 then Some (f, drop 6 r) else None
             | None \<Rightarrow>
                 (case number (take 3 r) of
                    Some f \<Rightarrow> if length r \<ge> 3 then Some (f * 1000, drop 3 r) else None
                  | None \<Rightarrow> None))
          else Some (0, s)
      | [] \<Rightarrow> Some (0, s))"

definition parse_offset :: "string \<Rightarrow> int option option" where
  "parse_offset s =
     (if s = [] then Some None
      else if length s = 6 \<and> (s ! 0 = CHR ''+'' \<or> s ! 0 = CHR ''-'') \<and> s ! 3 = CHR '':'' then
        (case (number (take 2 (drop 1 s)), number (drop 4 s)) of
           (Some h, Some m) \<Rightarrow>
             if h < 24 \<and> m < 60 then
               Some (Some ((if s ! 0 = CHR ''-'' then - 1 else 1) * (h * 3600 + m * 60) * 1000000))
             else None
         | _ \<Rightarrow> None)
      else None)"

definition iso_parse :: "string \<Rightarrow> datetime option" where
  "iso_parse s =
     (case parse_date (take 10 s) of
        None \<Rightarrow> None
      | Some (y, m, d) \<Rightarrow>
          if length s = 10 then
            Some \<lparr>year = y, month = m, day = d, hour = 0, minute = 0, second = 0,
                  microsecond = 0, utcoffset = None\<rparr>
          else
            (case parse_hms (take 8 (drop 11 s)) of
               None \<Rightarrow> None
             | Some (h, mi, sec) \<Rightarrow>
                 (case parse_fraction (drop 19 s) of
                    None \<Rightarrow> None
                  | Some (us, rest) \<Rightarrow>
                      (case parse_offset rest of
                         None \<Rightarrow> None
                       | Some off \<Rightarrow>
                           Some \<lparr>year = y, month = m, day = d, hour = h, minute = mi,
                                 second = sec, microsecond = us, utcoffset = off\<rparr>))))"

definition py0 :: pyrt where
  "py0 =
     \<lparr>fromisoformat = iso_parse, strftime_ymd = strftime_padded,
      round_half_up = (\<lambda>us. False)\<rparr>"

section \<open>Connections and device records\<close>

text \<open>
  A connection is the dictionary \<^verbatim>\<open>connection_data\<close> that \<^verbatim>\<open>run_analysis\<close> builds. The
  analysis tests \<^verbatim>\<open>client_mac\<close> only for truth, so a missing MAC (\<^verbatim>\<open>None\<close>) and the
  empty string are both the empty string here.
\<close>

record conn =
  organization :: string
  network :: string
  timestamp :: string
  event_type :: string
  client_mac :: string
  client_description :: string
  device_serial :: string
  ssid :: string
  conn_description :: string

datatype risk =
    TARGET_DATE
  | LOITERING_SUSPICIOUS
  | ANOMALOUS_SUSPICIOUS
  | BASELINE_REGULAR
  | BASELINE_ONLY

text \<open>
  The explanation strings are f-string templates. Each template is a constructor that
  carries the interpolated values, in the order in which the template mentions them;
  \<open>NoExplanation\<close> is the empty string. Elapsed times are in microseconds.
\<close>

datatype explanation =
    NoExplanation
  | LoiteringPattern int int int
  | ExtendedSession int int int
  | NeverSeen nat
  | RegularAcrossDays nat nat
  | RegularSingleDay nat
  | SuspiciousPattern nat nat nat
  | AlwaysOn nat nat
  | BaselineDevice nat nat

text \<open>
  The dictionary \<^verbatim>\<open>device_info\<close>, which is also the shape of the records of
  \<^verbatim>\<open>detect_loitering_patterns\<close>. A key that may be absent is an option; the lists
  \<^verbatim>\<open>networks\<close> and \<^verbatim>\<open>ssids\<close> come from Python sets, whose order is not defined, and
  are sets. \<open>duration_hours\<close> is in tenths of an hour.
\<close>

record device_info =
  mac :: string
  description :: string
  target_date_connections :: nat
  baseline_connections :: nat
  days_seen_out_of_hours :: nat
  networks :: "string set"
  ssids :: "string set"
  first_target_connection :: "string option"
  last_target_connection :: "string option"
  risk_level :: "risk option"
  risk_explanation :: explanation
  duration_hours :: "int option"
  arrived_hour :: "int option"
  departed_hour :: "int option"

text \<open>The records of \<^verbatim>\<open>analyze_extended_sessions\<close>.\<close>

record extended_session =
  es_mac :: string
  es_description :: string
  first_connection :: string
  last_connection :: string
  es_duration_hours :: int
  total_connections :: nat
  connected_hour :: int
  last_seen_hour :: int
  business_hours_start :: bool
  after_hours_activity :: bool
  es_risk_explanation :: explanation

section \<open>Grouping the connections of the target date\<close>

text \<open>
  \<^verbatim>\<open>target_day_connections\<close> is a dictionary from MAC to a list of connections. A
  dictionary keeps its keys in insertion order, so it is an association list: a new key
  goes to the end, an existing key keeps its place.
\<close>

fun group_append :: "string \<Rightarrow> conn \<Rightarrow> (string \<times> conn list) list \<Rightarrow> (string \<times> conn list) list" where
  "group_append m c [] = [(m, [c])]"
| "group_append m c ((k, cs) # g) =
     (if k = m then (k, cs @ [c]) # g else (k, cs) # group_append m c g)"

definition group_target_day :: "conn list \<Rightarrow> string \<Rightarrow> (string \<times> conn list) list" where
  "group_target_day connections target_date =
     foldl (\<lambda>g c. if take 10 (timestamp c) = target_date \<and> client_mac c \<noteq> []
                   then group_append (client_mac c) c g else g)
       [] connections"

section \<open>The loitering detector\<close>

text \<open>
  One iteration of the loop over \<^verbatim>\<open>target_day_connections.items()\<close>. Both timestamps
  are parsed and subtracted before the test, outside any \<^verbatim>\<open>try\<close>, so each failure
  leaves the function. A \<^verbatim>\<open>timedelta\<close> is an exact number of microseconds, and the
  double \<^verbatim>\<open>total_seconds() / 3600\<close> is above 8 exactly when that number is above the
  28800000000 microseconds of eight hours (both divisions round monotonically, 28800
  and 8 are doubles, and one microsecond is far more than the rounding error), so the
  test is written on the microseconds.
\<close>

definition loitering_step :: "pyrt \<Rightarrow> string \<times> conn list \<Rightarrow> error + device_info option" where
  "loitering_step py g =
     (let m = fst g; device_conns = snd g in
      if length device_conns < 2 then Inr None
      else
        let sorted_conns = sort_key timestamp device_conns in
        case fromisoformat py (replace_Z (timestamp (hd sorted_conns))) of
          None \<Rightarrow> Inl ValueError
        | Some first_conn \<Rightarrow>
            (case fromisoformat py (replace_Z (timestamp (last sorted_conns))) of
               None \<Rightarrow> Inl ValueError
             | Some last_conn \<Rightarrow>
                 (let arrived_business_hours = (6 \<le> hour first_conn \<and> hour first_conn < 18);
                      stayed_late = (hour last_conn \<ge> 18)
                  in case dt_sub last_conn first_conn of
                       Inl e \<Rightarrow> Inl e
                     | Inr duration_us \<Rightarrow>
                         if arrived_business_hours \<and> stayed_late \<and> duration_us > 28800000000
                         then Inr (Some
                           \<lparr>mac = m,
                            description = client_description (hd sorted_conns),
                            target_date_connections = length sorted_conns,
                            baseline_connections = 0,
                            days_seen_out_of_hours = 1,
                            networks = {},
                            ssids = {},
                            first_target_connection = Some (timestamp (hd sorted_conns)),
                            last_target_connection = Some (timestamp (last sorted_conns)),
                            risk_level = Some LOITERING_SUSPICIOUS,
                            risk_explanation =
                              LoiteringPattern (hour first_conn) (hour last_conn) duration_us,
                            duration_hours = Some (round_tenths py duration_us),
                            arrived_hour = Some (hour first_conn),
                            departed_hour =
                              Some (if hour last_conn \<ge> 18 then hour last_conn else 24)\<rparr>)
                         else Inr None)))"

fun loitering_loop :: "pyrt \<Rightarrow> (string \<times> conn list) list \<Rightarrow> device_info list \<Rightarrow> error + device_info list" where
  "loitering_loop py [] loitering_devices = Inr loitering_devices"
| "loitering_loop py (g # gs) loitering_devices =
     (case loitering_step py g of
        Inl e \<Rightarrow> Inl e
      | Inr None \<Rightarrow> loitering_loop py gs loitering_devices
      | Inr (Some d) \<Rightarrow> loitering_loop py gs (loitering_devices @ [d]))"

definition detect_loitering_patterns :: "pyrt \<Rightarrow> conn list \<Rightarrow> string \<Rightarrow> error + device_info list" where
  "detect_loitering_patterns py connections target_date =
     loitering_loop py (group_target_day connections target_date) []"

section \<open>The target date\<close>

text \<open>
  \<^verbatim>\<open>if not target_date\<close>: a missing target date (\<^verbatim>\<open>None\<close> or the empty string, here the
  empty string) is replaced by the date of the latest timestamp, or by the current date
  \<open>today\<close> when there is no connection.
\<close>

definition resolve_target_date :: "conn list \<Rightarrow> string \<Rightarrow> string \<Rightarrow> string" where
  "resolve_target_date connections target_date today =
     (if target_date \<noteq> [] then target_date
      else case connections of
             [] \<Rightarrow> today
           | c # cs \<Rightarrow> take 10 (foldl max (timestamp c) (map timestamp cs)))"

section \<open>The extended-session detector\<close>

definition extended_step :: "pyrt \<Rightarrow> string \<times> conn list \<Rightarrow> error + extended_session option" where
  "extended_step py g =
     (let m = fst g; device_conns = snd g in
      if length device_conns < 2 then Inr None
      else
        let sorted_conns = sort_key timestamp device_conns in
        case fromisoformat py (replace_Z (timestamp (hd sorted_conns))) of
          None \<Rightarrow> Inl ValueError
        | Some first_conn \<Rightarrow>
            (case fromisoformat py (replace_Z (timestamp (last sorted_conns))) of
               None \<Rightarrow> Inl ValueError
             | Some last_conn \<Rightarrow>
                 (let connected_business_hours =
                        is_business_hours py (timestamp (hd sorted_conns));
                      stayed_after_hours = (hour last_conn \<ge> 18)
                  in case dt_sub last_conn first_conn of
                       Inl e \<Rightarrow> Inl e
                     | Inr duration_us \<Rightarrow>
                         if connected_business_hours \<and> stayed_after_hours
                         then Inr (Some
                           \<lparr>es_mac = m,
                            es_description = client_description (hd sorted_conns),
                            first_connection = timestamp (hd sorted_conns),
                            last_connection = timestamp (last sorted_conns),
                            es_duration_hours = round_tenths py duration_us,
                            total_connections = length sorted_conns,
                            connected_hour = hour first_conn,
                            last_seen_hour = hour last_conn,
                            business_hours_start = True,
                            after_hours_activity = True,
                            es_risk_explanation =
                              ExtendedSession (hour first_conn) (hour last_conn) duration_us\<rparr>)
                         else Inr None)))"

fun extended_loop :: "pyrt \<Rightarrow> (string \<times> conn list) list \<Rightarrow> extended_session list \<Rightarrow> error + extended_session list" where
  "extended_loop py [] extended_session_devices = Inr extended_session_devices"
| "extended_loop py (g # gs) extended_session_devices =
     (case extended_step py g of
        Inl e \<Rightarrow> Inl e
      | Inr None \<Rightarrow> extended_loop py gs extended_session_devices
      | Inr (Some d) \<Rightarrow> extended_loop py gs (extended_session_devices @ [d]))"

definition analyze_extended_sessions :: "pyrt \<Rightarrow> conn list \<Rightarrow> string \<Rightarrow> string \<Rightarrow> error + extended_session list" where
  "analyze_extended_sessions py connections target_date today =
     extended_loop py
       (group_target_day connections (resolve_target_date connections target_date today)) []"

section \<open>Per-device patterns of the out-of-hours connections\<close>

text \<open>The value that \<^verbatim>\<open>device_patterns\<close> holds for a MAC.\<close>

record pattern =
  p_description :: string
  p_networks :: "string set"
  p_ssids :: "string set"
  p_target_date_connections :: "conn list"
  p_baseline_connections :: "conn list"
  p_all_dates :: "string set"

text \<open>\<^verbatim>\<open>d[k] = v\<close> on an insertion-ordered dictionary.\<close>

fun dict_set :: "'k \<Rightarrow> 'v \<Rightarrow> ('k \<times> 'v) list \<Rightarrow> ('k \<times> 'v) list" where
  "dict_set k v [] = [(k, v)]"
| "dict_set k v ((k', v') # d) = (if k' = k then (k, v) # d else (k', v') # dict_set k v d)"

text \<open>
  One iteration of the loop over \<^verbatim>\<open>out_of_hours_connections\<close>. The target date is
  parsed, and the next day computed, inside the loop: a target date that does not
  parse raises at the first connection with a MAC. The night cycle is the evening of
  the target date and the morning of the next day.
\<close>

definition pattern_step :: "pyrt \<Rightarrow> string \<Rightarrow> (string \<times> pattern) list \<Rightarrow> conn \<Rightarrow> error + (string \<times> pattern) list" where
  "pattern_step py target_date device_patterns c =
     (let m = client_mac c in
      if m = [] then Inr device_patterns
      else
        let conn_date = take 10 (timestamp c);
            created =
              (case map_of device_patterns m of
                 None \<Rightarrow>
                   \<lparr>p_description = client_description c, p_networks = {}, p_ssids = {},
                    p_target_date_connections = [], p_baseline_connections = [],
                    p_all_dates = {}\<rparr>
               | Some d \<Rightarrow> d);
            data = created
              \<lparr>p_networks := insert (network c) (p_networks created),
               p_ssids := insert (ssid c) (p_ssids created),
               p_all_dates := insert conn_date (p_all_dates created)\<rparr>
        in case fromisoformat py target_date of
             None \<Rightarrow> Inl ValueError
           | Some target_dt \<Rightarrow>
               (case add_one_day target_dt of
                  Inl e \<Rightarrow> Inl e
                | Inr next_dt \<Rightarrow>
                    (let next_day = strftime_ymd py next_dt in
                     case fromisoformat py (replace_Z (timestamp c)) of
                       None \<Rightarrow> Inl ValueError
                     | Some conn_dt \<Rightarrow>
                         (let is_target_evening = (conn_date = target_date \<and> hour conn_dt \<ge> 18);
                              is_target_morning = (conn_date = next_day \<and> hour conn_dt < 6)
                          in if is_target_evening \<or> is_target_morning
                             then Inr (dict_set m
                                    (data\<lparr>p_target_date_connections :=
                                            p_target_date_connections data @ [c]\<rparr>)
                                    device_patterns)
                             else Inr (dict_set m
                                    (data\<lparr>p_baseline_connections :=
                                            p_baseline_connections data @ [c]\<rparr>)
                                    device_patterns)))))"

fun pattern_loop :: "pyrt \<Rightarrow> string \<Rightarrow> (string \<times> pattern) list \<Rightarrow> conn list \<Rightarrow> error + (string \<times> pattern) list" where
  "pattern_loop py target_date device_patterns [] = Inr device_patterns"
| "pattern_loop py target_date device_patterns (c # cs) =
     (case pattern_step py target_date device_patterns c of
        Inl e \<Rightarrow> Inl e
      | Inr device_patterns' \<Rightarrow> pattern_loop py target_date device_patterns' cs)"

definition build_device_patterns :: "pyrt \<Rightarrow> conn list \<Rightarrow> string \<Rightarrow> error + (string \<times> pattern) list" where
  "build_device_patterns py connections target_date =
     pattern_loop py target_date []
       (filter (\<lambda>c. is_out_of_hours py (timestamp c)) connections)"

section \<open>Classification\<close>

text \<open>
  The classification loop appends the dictionary \<^verbatim>\<open>device_info\<close> to a bucket and
  assigns to its keys afterwards, so the buckets share objects. The objects live in a
  heap, a bucket is a list of addresses, \<^verbatim>\<open>device_info.copy()\<close> allocates a new object.
\<close>

record analysis_state =
  heap :: "device_info list"
  target_date_refs :: "nat list"
  baseline_regular_refs :: "nat list"
  anomalous_refs :: "nat list"
  baseline_only_refs :: "nat list"

definition alloc :: "device_info \<Rightarrow> analysis_state \<Rightarrow> analysis_state" where
  "alloc d st = st\<lparr>heap := heap st @ [d]\<rparr>"

definition assign :: "nat \<Rightarrow> (device_info \<Rightarrow> device_info) \<Rightarrow> analysis_state \<Rightarrow> analysis_state" where
  "assign r f st = st\<lparr>heap := (heap st)[r := f (heap st ! r)]\<rparr>"

definition append_target_date :: "nat \<Rightarrow> analysis_state \<Rightarrow> analysis_state" where
  "append_target_date r st = st\<lparr>target_date_refs := target_date_refs st @ [r]\<rparr>"

definition append_baseline_regular :: "nat \<Rightarrow> analysis_state \<Rightarrow> analysis_state" where
  "append_baseline_regular r st = st\<lparr>baseline_regular_refs := baseline_regular_refs st @ [r]\<rparr>"

definition append_anomalous :: "nat \<Rightarrow> analysis_state \<Rightarrow> analysis_state" where
  "append_anomalous r st = st\<lparr>anomalous_refs := anomalous_refs st @ [r]\<rparr>"

definition append_baseline_only :: "nat \<Rightarrow> analysis_state \<Rightarrow> analysis_state" where
  "append_baseline_only r st = st\<lparr>baseline_only_refs := baseline_only_refs st @ [r]\<rparr>"

text \<open>\<^verbatim>\<open>min(...) if xs else None\<close> and \<^verbatim>\<open>max(...) if xs else None\<close> over timestamps.\<close>

definition min_timestamp :: "conn list \<Rightarrow> string option" where
  "min_timestamp cs = (case cs of [] \<Rightarrow> None | c # r \<Rightarrow> Some (foldl min (timestamp c) (map timestamp r)))"

definition max_timestamp :: "conn list \<Rightarrow> string option" where
  "max_timestamp cs = (case cs of [] \<Rightarrow> None | c # r \<Rightarrow> Some (foldl max (timestamp c) (map timestamp r)))"

text \<open>
  One iteration of the loop over \<^verbatim>\<open>device_patterns.items()\<close>. \<open>r\<close> is the address of
  the new \<^verbatim>\<open>device_info\<close>; a record of the detector is a non-empty dictionary, hence true.
\<close>

definition classify_step :: "device_info list \<Rightarrow> analysis_state \<Rightarrow> string \<times> pattern \<Rightarrow> analysis_state" where
  "classify_step lds st0 kv =
     (let m = fst kv; data = snd kv;
          target_count = length (p_target_date_connections data);
          baseline_count = length (p_baseline_connections data);
          days_seen = card (p_all_dates data);
          r = length (heap st0);
          st = alloc
                 \<lparr>mac = m,
                  description = p_description data,
                  target_date_connections = target_count,
                  baseline_connections = baseline_count,
                  days_seen_out_of_hours = days_seen,
                  networks = p_networks data,
                  ssids = p_ssids data,
                  first_target_connection = min_timestamp (p_target_date_connections data),
                  last_target_connection = max_timestamp (p_target_date_connections data),
                  risk_level = None,
                  risk_explanation = NoExplanation,
                  duration_hours = None,
                  arrived_hour = None,
                  departed_hour = None\<rparr> st0
      in if target_count > 0 then
           (let st = assign r (\<lambda>d. d\<lparr>risk_level := Some TARGET_DATE\<rparr>) st;
                st = append_target_date r st
            in case find (\<lambda>ld. mac ld = m) lds of
                 Some loitering_device \<Rightarrow>
                   append_anomalous r
                     (assign r (\<lambda>d. d\<lparr>risk_level := Some LOITERING_SUSPICIOUS,
                                      risk_explanation := risk_explanation loitering_device,
                                      duration_hours := duration_hours loitering_device,
                                      arrived_hour := arrived_hour loitering_device,
                                      departed_hour := departed_hour loitering_device\<rparr>) st)
               | None \<Rightarrow>
                   if baseline_count = 0 then
                     append_anomalous r
                       (assign r (\<lambda>d. d\<lparr>risk_level := Some ANOMALOUS_SUSPICIOUS,
                                        risk_explanation := NeverSeen target_count\<rparr>) st)
                   else if baseline_count \<ge> 1 \<and> days_seen \<ge> 2 then
                     append_baseline_regular r
                       (assign r (\<lambda>d. d\<lparr>risk_level := Some BASELINE_REGULAR,
                                        risk_explanation :=
                                          RegularAcrossDays baseline_count days_seen\<rparr>) st)
                   else if baseline_count \<ge> 3 then
                     append_baseline_regular r
                       (assign r (\<lambda>d. d\<lparr>risk_level := Some BASELINE_REGULAR,
                                        risk_explanation := RegularSingleDay baseline_count\<rparr>) st)
                   else
                     append_anomalous r
                       (assign r (\<lambda>d. d\<lparr>risk_level := Some ANOMALOUS_SUSPICIOUS,
                                        risk_explanation :=
                                          SuspiciousPattern baseline_count days_seen target_count\<rparr>)
                          st))
         else if baseline_count > 0 then
           (let st = assign r (\<lambda>d. d\<lparr>risk_level := Some BASELINE_ONLY\<rparr>) st;
                st = (if days_seen \<ge> 3
                      then assign r (\<lambda>d. d\<lparr>risk_explanation := AlwaysOn baseline_count days_seen\<rparr>) st
                      else assign r (\<lambda>d. d\<lparr>risk_explanation :=
                                              BaselineDevice baseline_count days_seen\<rparr>) st);
                st = append_baseline_only r st
            in if baseline_count \<ge> 1 \<and> days_seen \<ge> 2 then
                 append_baseline_regular (length (heap st))
                   (alloc ((heap st ! r)\<lparr>risk_level := Some BASELINE_REGULAR\<rparr>) st)
               else if baseline_count \<ge> 3 then
                 append_baseline_regular (length (heap st))
                   (alloc ((heap st ! r)\<lparr>risk_level := Some BASELINE_REGULAR\<rparr>) st)
               else st)
         else st)"

definition initial_state :: analysis_state where
  "initial_state =
     \<lparr>heap = [], target_date_refs = [], baseline_regular_refs = [], anomalous_refs = [],
      baseline_only_refs = []\<rparr>"

text \<open>
  The function up to its \<^verbatim>\<open>return\<close>: the records of the detector and the state of
  the buckets.
\<close>

definition analyze_state :: "pyrt \<Rightarrow> conn list \<Rightarrow> string \<Rightarrow> string \<Rightarrow> error + device_info list \<times> analysis_state" where
  "analyze_state py connections target_date today =
     (let resolved = resolve_target_date connections target_date today in
      case build_device_patterns py connections resolved of
        Inl e \<Rightarrow> Inl e
      | Inr device_patterns \<Rightarrow>
          (case detect_loitering_patterns py connections resolved of
             Inl e \<Rightarrow> Inl e
           | Inr lds \<Rightarrow> Inr (lds, foldl (classify_step lds) initial_state device_patterns)))"

text \<open>The returned dictionary \<^verbatim>\<open>analysis\<close>, each bucket read through the heap.\<close>

record analysis =
  target_date_devices :: "device_info list"
  baseline_regular_devices :: "device_info list"
  anomalous_devices :: "device_info list"
  baseline_only_devices :: "device_info list"
  loitering_devices :: "device_info list"

definition read_analysis :: "device_info list \<times> analysis_state \<Rightarrow> analysis" where
  "read_analysis p =
     (let lds = fst p; st = snd p in
      \<lparr>target_date_devices = map (\<lambda>r. heap st ! r) (target_date_refs st),
       baseline_regular_devices = map (\<lambda>r. heap st ! r) (baseline_regular_refs st),
       anomalous_devices = map (\<lambda>r. heap st ! r) (anomalous_refs st),
       baseline_only_devices = map (\<lambda>r. heap st ! r) (baseline_only_refs st),
       loitering_devices = lds\<rparr>)"

definition analyze_out_of_hours_patterns :: "pyrt \<Rightarrow> conn list \<Rightarrow> string \<Rightarrow> string \<Rightarrow> error + analysis" where
  "analyze_out_of_hours_patterns py connections target_date today =
     (case analyze_state py connections target_date today of
        Inl e \<Rightarrow> Inl e
      | Inr p \<Rightarrow> Inr (read_analysis p))"

text \<open>The keys of \<^verbatim>\<open>analysis\<close> with their values, in the order of the dictionary.\<close>

definition analysis_items :: "analysis \<Rightarrow> (string \<times> device_info list) list" where
  "analysis_items a =
     [(''target_date_devices'', target_date_devices a),
      (''baseline_regular_devices'', baseline_regular_devices a),
      (''anomalous_devices'', anomalous_devices a),
      (''baseline_only_devices'', baseline_only_devices a),
      (''loitering_devices'', loitering_devices a)]"

section \<open>The run: deduplication and reporting\<close>

text \<open>
  A raw event is a dictionary read with \<^verbatim>\<open>event.get\<close>, which gives \<^verbatim>\<open>None\<close> for a
  missing key: an association list read with \<open>map_of\<close>.
\<close>

type_synonym raw_event = "(string \<times> string) list"

type_synonym event_key = "string option \<times> string option \<times> string option"

definition event_key_of :: "raw_event \<Rightarrow> event_key" where
  "event_key_of event =
     (map_of event ''occurredAt'', map_of event ''clientMac'', map_of event ''type'')"

fun dedup_loop :: "event_key set \<Rightarrow> raw_event list \<Rightarrow> raw_event list \<Rightarrow> raw_event list" where
  "dedup_loop seen_events deduplicated_events [] = deduplicated_events"
| "dedup_loop seen_events deduplicated_events (event # all_events) =
     (if event_key_of event \<notin> seen_events
      then dedup_loop (insert (event_key_of event) seen_events)
             (deduplicated_events @ [event]) all_events
      else dedup_loop seen_events deduplicated_events all_events)"

definition deduplicate :: "raw_event list \<Rightarrow> raw_event list" where
  "deduplicate all_events = dedup_loop {} [] all_events"

text \<open>
  The end of \<^verbatim>\<open>run_analysis\<close>, from \<^verbatim>\<open>if all_connections:\<close>. The run reports the
  number of extended-session devices as
  \<^verbatim>\<open>len(pattern_analysis.get('extended_session_devices', []))\<close>, and the exporter writes
  one file \<^verbatim>\<open>{category_name}.csv\<close> for each key of the analysis whose list is not empty.
\<close>

record run_report =
  extended_session_count :: nat
  exported_categories :: "string list"

definition report_extended_sessions :: "analysis \<Rightarrow> nat" where
  "report_extended_sessions pattern_analysis =
     length (case map_of (analysis_items pattern_analysis) ''extended_session_devices'' of
               None \<Rightarrow> []
             | Some devices \<Rightarrow> devices)"

definition export_categories :: "analysis \<Rightarrow> string list" where
  "export_categories a = map fst (filter (\<lambda>kv. snd kv \<noteq> []) (analysis_items a))"

definition run_analysis_report :: "pyrt \<Rightarrow> conn list \<Rightarrow> string \<Rightarrow> string \<Rightarrow> error + run_report option" where
  "run_analysis_report py all_connections investigation_date today =
     (if all_connections \<noteq> [] then
        (case analyze_out_of_hours_patterns py all_connections investigation_date today of
           Inl e \<Rightarrow> Inl e
         | Inr pattern_analysis \<Rightarrow>
             Inr (Some \<lparr>extended_session_count = report_extended_sessions pattern_analysis,
                        exported_categories = export_categories pattern_analysis\<rparr>))
      else Inr None)"

section \<open>Notions used to state the properties\<close>

text \<open>
  The events that deduplication keeps, written as a recursion on the input: an event
  is kept when its key has not been seen before.
\<close>

fun first_occurrences :: "event_key set \<Rightarrow> raw_event list \<Rightarrow> raw_event list" where
  "first_occurrences seen [] = []"
| "first_occurrences seen (e # es) =
     (if event_key_of e \<in> seen then first_occurrences seen es
      else e # first_occurrences (insert (event_key_of e) seen) es)"

text \<open>The connections of a MAC that are dated \<open>target_date\<close>, in arrival order.\<close>

definition day_connections :: "conn list \<Rightarrow> string \<Rightarrow> string \<Rightarrow> conn list" where
  "day_connections connections target_date m =
     filter (\<lambda>c. take 10 (timestamp c) = target_date \<and> client_mac c = m) connections"

text \<open>
  A \<^verbatim>\<open>datetime\<close> object has an hour from 0 to 23: the runtimes whose parser returns
  no hour of 24 or more.
\<close>

definition hours_below_24 :: "pyrt \<Rightarrow> bool" where
  "hours_below_24 py = (\<forall>s dt. fromisoformat py s = Some dt \<longrightarrow> hour dt < 24)"

text \<open>
  The out-of-hours connections of a MAC, in arrival order: the connections from which
  its entry of \<^verbatim>\<open>device_patterns\<close> is built.
\<close>

definition out_of_hours_of :: "pyrt \<Rightarrow> conn list \<Rightarrow> string \<Rightarrow> conn list" where
  "out_of_hours_of py connections m =
     filter (\<lambda>c. is_out_of_hours py (timestamp c) \<and> client_mac c = m) connections"

text \<open>
  The membership test of the target night cycle, for the target date and the date of
  the next day: its evening from 18:00, or the morning of the next day before 06:00.
\<close>

definition in_night_cycle :: "pyrt \<Rightarrow> string \<Rightarrow> string \<Rightarrow> conn \<Rightarrow> bool" where
  "in_night_cycle py target_date next_day c =
     (case fromisoformat py (replace_Z (timestamp c)) of
        None \<Rightarrow> False
      | Some dt \<Rightarrow>
          (take 10 (timestamp c) = target_date \<and> 18 \<le> hour dt) \<or>
          (take 10 (timestamp c) = next_day \<and> hour dt < 6))"

text \<open>
  The value of \<^verbatim>\<open>device_patterns\<close> for a MAC, computed from its out-of-hours
  connections \<open>cs\<close>, a list that is not empty.
\<close>

definition pattern_of :: "pyrt \<Rightarrow> string \<Rightarrow> string \<Rightarrow> conn list \<Rightarrow> pattern" where
  "pattern_of py target_date next_day cs =
     \<lparr>p_description = client_description (hd cs),
      p_networks = network ` set cs,
      p_ssids = ssid ` set cs,
      p_target_date_connections = filter (in_night_cycle py target_date next_day) cs,
      p_baseline_connections = filter (\<lambda>c. \<not> in_night_cycle py target_date next_day c) cs,
      p_all_dates = (\<lambda>c. take 10 (timestamp c)) ` set cs\<rparr>"

text \<open>
  The record that the classification makes for a MAC with connections in the target
  night: the counts of its pattern, and the level of the first rule that matches.
\<close>

definition target_record :: "device_info list \<Rightarrow> string \<Rightarrow> pattern \<Rightarrow> device_info \<Rightarrow> bool" where
  "target_record lds m data d =
     (mac d = m \<and>
      target_date_connections d = length (p_target_date_connections data) \<and>
      baseline_connections d = length (p_baseline_connections data) \<and>
      days_seen_out_of_hours d = card (p_all_dates data) \<and>
      (case find (\<lambda>ld. mac ld = m) lds of
         Some ld \<Rightarrow>
           risk_level d = Some LOITERING_SUSPICIOUS \<and>
           risk_explanation d = risk_explanation ld \<and>
           duration_hours d = duration_hours ld \<and>
           arrived_hour d = arrived_hour ld \<and>
           departed_hour d = departed_hour ld
       | None \<Rightarrow>
           risk_level d =
             Some (if baseline_connections d = 0 then ANOMALOUS_SUSPICIOUS
                   else if baseline_connections d \<ge> 1 \<and> days_seen_out_of_hours d \<ge> 2
                        then BASELINE_REGULAR
                   else if baseline_connections d \<ge> 3 then BASELINE_REGULAR
                   else ANOMALOUS_SUSPICIOUS)))"

text \<open>
  The invariant of the classification loop after the patterns \<open>ps\<close>: each address in
  \<^verbatim>\<open>target_date_devices\<close> holds the record of one of these patterns and is also in the
  bucket of its level, and each pattern with connections in the target night has its
  record there.
\<close>

definition classified_upto :: "device_info list \<Rightarrow> (string \<times> pattern) list \<Rightarrow> analysis_state \<Rightarrow> bool" where
  "classified_upto lds ps st =
     ((\<forall>r \<in> set (target_date_refs st).
         r < length (heap st) \<and>
         (\<exists>kv \<in> set ps. 0 < length (p_target_date_connections (snd kv)) \<and>
                        target_record lds (fst kv) (snd kv) (heap st ! r)) \<and>
         (if risk_level (heap st ! r) = Some BASELINE_REGULAR
          then r \<in> set (baseline_regular_refs st) else r \<in> set (anomalous_refs st))) \<and>
      (\<forall>kv \<in> set ps. 0 < length (p_target_date_connections (snd kv)) \<longrightarrow>
         (\<exists>r \<in> set (target_date_refs st).
            r < length (heap st) \<and> target_record lds (fst kv) (snd kv) (heap st ! r))))"

text \<open>
  The counts of a MAC that the classification uses, computed from the connections:
  its out-of-hours connections inside and outside the target night cycle, and the
  number of distinct dates on which it was seen out of hours.
\<close>

definition target_count :: "pyrt \<Rightarrow> conn list \<Rightarrow> string \<Rightarrow> string \<Rightarrow> string \<Rightarrow> nat" where
  "target_count py connections target_date next_day m =
     length (filter (in_night_cycle py target_date next_day) (out_of_hours_of py connections m))"

definition baseline_count :: "pyrt \<Rightarrow> conn list \<Rightarrow> string \<Rightarrow> string \<Rightarrow> string \<Rightarrow> nat" where
  "baseline_count py connections target_date next_day m =
     length (filter (\<lambda>c. \<not> in_night_cycle py target_date next_day c)
               (out_of_hours_of py connections m))"

definition days_seen :: "pyrt \<Rightarrow> conn list \<Rightarrow> string \<Rightarrow> nat" where
  "days_seen py connections m =
     card ((\<lambda>c. take 10 (timestamp c)) ` set (out_of_hours_of py connections m))"

section \<open>Example data\<close>

definition example_conn :: "string \<Rightarrow> string \<Rightarrow> conn" where
  "example_conn ts m =
     \<lparr>organization = ''Organization 1'', network = ''Network 1'', timestamp = ts,
      event_type = ''association'', client_mac = m, client_description = ''laptop'',
      device_serial = ''Q2XX'', ssid = ''corp'', conn_description = []\<rparr>"

text \<open>A device that connects at 09:00 and is last seen at 19:30 on the target date.\<close>

definition loitering_example :: "conn list" where
  "loitering_example =
     [example_conn ''2025-06-23T09:00:00.000Z'' ''CC:CC'',
      example_conn ''2025-06-23T19:30:00.000Z'' ''CC:CC'']"

text \<open>
  Five raw events: one MAC at two timestamps and with two event types, another MAC, and
  a second delivery of the first event that differs from it only in a field outside
  the key.
\<close>

definition duplicated_events :: "raw_event list" where
  "duplicated_events =
     [[(''occurredAt'', ''2025-06-23T19:30:00.000Z''), (''clientMac'', ''CC:CC''),
       (''type'', ''association''), (''ssid'', ''corp'')],
      [(''occurredAt'', ''2025-06-23T21:00:00.000Z''), (''clientMac'', ''CC:CC''),
       (''type'', ''association''), (''ssid'', ''corp'')],
      [(''occurredAt'', ''2025-06-23T19:30:00.000Z''), (''clientMac'', ''CC:CC''),
       (''type'', ''disassociation''), (''ssid'', ''corp'')],
      [(''occurredAt'', ''2025-06-23T19:30:00.000Z''), (''clientMac'', ''BB:BB''),
       (''type'', ''association''), (''ssid'', ''corp'')],
      [(''occurredAt'', ''2025-06-23T19:30:00.000Z''), (''clientMac'', ''CC:CC''),
       (''type'', ''association''), (''ssid'', ''guest'')]]"

text \<open>
  A device seen three times in the morning of the target date, which belongs to the
  night before, and once in its evening: all on one date.
\<close>

definition single_day_example :: "conn list" where
  "single_day_example =
     [example_conn ''2025-06-23T01:00:00.000Z'' ''DD:DD'',
      example_conn ''2025-06-23T02:00:00.000Z'' ''DD:DD'',
      example_conn ''2025-06-23T03:00:00.000Z'' ''DD:DD'',
      example_conn ''2025-06-23T20:00:00.000Z'' ''DD:DD'']"

text \<open>A device seen once, in the morning after the target date.\<close>

definition next_morning_example :: "conn list" where
  "next_morning_example = [example_conn ''2025-06-24T02:00:00.000Z'' ''BB:BB'']"


text \<open>The target date of the examples and the day after it.\<close>

definition example_date :: datetime where
  "example_date =
     \<lparr>year = 2025, month = 6, day = 23, hour = 0, minute = 0, second = 0, microsecond = 0,
      utcoffset = None\<rparr>"

definition example_next_date :: datetime where
  "example_next_date =
     \<lparr>year = 2025, month = 6, day = 24, hour = 0, minute = 0, second = 0, microsecond = 0,
      utcoffset = None\<rparr>"

text \<open>
  What the analysis returns on \<open>loitering_example\<close> for the target date 2025-06-23: the
  record of the detector, the record of the classification, the state of the buckets
  and the returned dictionary.
\<close>

definition loitering_flag :: device_info where
  "loitering_flag =
     \<lparr>mac = ''CC:CC'', description = ''laptop'', target_date_connections = 2,
      baseline_connections = 0, days_seen_out_of_hours = 1, networks = {}, ssids = {},
      first_target_connection = Some ''2025-06-23T09:00:00.000Z'',
      last_target_connection = Some ''2025-06-23T19:30:00.000Z'',
      risk_level = Some LOITERING_SUSPICIOUS,
      risk_explanation = LoiteringPattern 9 19 37800000000,
      duration_hours = Some 105, arrived_hour = Some 9, departed_hour = Some 19\<rparr>"

definition loitering_info :: device_info where
  "loitering_info =
     \<lparr>mac = ''CC:CC'', description = ''laptop'', target_date_connections = 1,
      baseline_connections = 0, days_seen_out_of_hours = 1, networks = {''Network 1''},
      ssids = {''corp''},
      first_target_connection = Some ''2025-06-23T19:30:00.000Z'',
      last_target_connection = Some ''2025-06-23T19:30:00.000Z'',
      risk_level = Some LOITERING_SUSPICIOUS,
      risk_explanation = LoiteringPattern 9 19 37800000000,
      duration_hours = Some 105, arrived_hour = Some 9, departed_hour = Some 19\<rparr>"

definition loitering_state :: analysis_state where
  "loitering_state =
     \<lparr>heap = [loitering_info], target_date_refs = [0], baseline_regular_refs = [],
      anomalous_refs = [0], baseline_only_refs = []\<rparr>"

definition loitering_analysis :: analysis where
  "loitering_analysis =
     \<lparr>target_date_devices = [loitering_info], baseline_regular_devices = [],
      anomalous_devices = [loitering_info], baseline_only_devices = [],
      loitering_devices = [loitering_flag]\<rparr>"

text \<open>What the analysis returns on \<open>single_day_example\<close> for the same target date.\<close>

definition single_day_info :: device_info where
  "single_day_info =
     \<lparr>mac = ''DD:DD'', description = ''laptop'', target_date_connections = 1,
      baseline_connections = 3, days_seen_out_of_hours = 1, networks = {''Network 1''},
      ssids = {''corp''},
      first_target_connection = Some ''2025-06-23T20:00:00.000Z'',
      last_target_connection = Some ''2025-06-23T20:00:00.000Z'',
      risk_level = Some BASELINE_REGULAR, risk_explanation = RegularSingleDay 3,
      duration_hours = None, arrived_hour = None, departed_hour = None\<rparr>"

definition single_day_analysis :: analysis where
  "single_day_analysis =
     \<lparr>target_date_devices = [single_day_info], baseline_regular_devices = [single_day_info],
      anomalous_devices = [], baseline_only_devices = [], loitering_devices = []\<rparr>"

text \<open>What the analysis returns on \<open>next_morning_example\<close> for the same target date.\<close>

definition next_morning_info :: device_info where
  "next_morning_info =
     \<lparr>mac = ''BB:BB'', description = ''laptop'', target_date_connections = 1,
      baseline_connections = 0, days_seen_out_of_hours = 1, networks = {''Network 1''},
      ssids = {''corp''},
      first_target_connection = Some ''2025-06-24T02:00:00.000Z'',
      last_target_connection = Some ''2025-06-24T02:00:00.000Z'',
      risk_level = Some ANOMALOUS_SUSPICIOUS, risk_explanation = NeverSeen 1,
      duration_hours = None, arrived_hour = None, departed_hour = None\<rparr>"

definition next_morning_analysis :: analysis where
  "next_morning_analysis =
     \<lparr>target_date_devices = [next_morning_info], baseline_regular_devices = [],
      anomalous_devices = [next_morning_info], baseline_only_devices = [],
      loitering_devices = []\<rparr>"

text \<open>
  A \<^verbatim>\<open>strftime('%Y-%m-%d')\<close> that writes the year without leading zeros, as the C
  library of Linux does, and the runtime that differs from \<open>py0\<close> in this only.
\<close>

definition strftime_unpadded :: "datetime \<Rightarrow> string" where
  "strftime_unpadded dt =
     (let y = year dt in
      if y < 10 then [digit_char y]
      else if y < 100 then pad2 y
      else if y < 1000 then digit_char (y div 100) # pad2 (y mod 100)
      else pad4 y) @ ''-'' @ pad2 (month dt) @ ''-'' @ pad2 (day dt)"

definition py_unpadded :: pyrt where
  "py_unpadded = py0\<lparr>strftime_ymd := strftime_unpadded\<rparr>"

text \<open>
  A device seen in the evening of a target date of the year 500 and in the morning
  after it.
\<close>

definition early_year_example :: "conn list" where
  "early_year_example =
     [example_conn ''0500-06-23T20:00:00.000Z'' ''AA:AA'',
      example_conn ''0500-06-24T02:00:00.000Z'' ''AA:AA'']"

section \<open>Properties of the hour classifiers\<close>

text \<open>
  C9. \<^verbatim>\<open>is_out_of_hours\<close> and \<^verbatim>\<open>is_business_hours\<close> are total functions into the
  booleans. On a timestamp that \<^verbatim>\<open>fromisoformat\<close> rejects, the body of each raises, the
  handler catches it, and both return \<open>False\<close>: the event is neither out of hours nor in
  business hours.
\<close>

theorem hour_classifiers_fail_soft:
  assumes "fromisoformat py (replace_Z ts) = None"
  shows "out_of_hours_body py ts = Inl ValueError \<and> is_out_of_hours py ts = False \<and>
         business_hours_body py ts = Inl ValueError \<and> is_business_hours py ts = False"
  using assms
  by (simp add: out_of_hours_body_def is_out_of_hours_def business_hours_body_def
      is_business_hours_def)

theorem hour_classifiers_fail_soft_witness:
  "fromisoformat py0 (replace_Z ''not-a-timestamp'') = None \<and>
   is_out_of_hours py0 ''not-a-timestamp'' = False \<and>
   is_business_hours py0 ''not-a-timestamp'' = False"
proof -
  have h: "fromisoformat py0 (replace_Z ''not-a-timestamp'') = None"
    by (simp add: py0_def iso_parse_def replace_Z_def parse_date_def)
  show ?thesis
    using h hour_classifiers_fail_soft [OF h] by simp
qed

section \<open>Properties of deduplication\<close>

lemma dedup_loop_first_occurrences:
  "dedup_loop seen acc es = acc @ first_occurrences seen es"
  by (induction es arbitrary: seen acc) auto

lemma keys_first_occurrences:
  "set (map event_key_of (first_occurrences seen es)) = set (map event_key_of es) - seen"
  by (induction es arbitrary: seen) auto

lemma distinct_first_occurrences:
  "distinct (map event_key_of (first_occurrences seen es))"
  by (induction es arbitrary: seen) (auto simp: keys_first_occurrences simp del: set_map)

lemma find_first_occurrences:
  "find (\<lambda>e. event_key_of e = k) (first_occurrences seen es) =
     (if k \<in> seen then None else find (\<lambda>e. event_key_of e = k) es)"
  by (induction es arbitrary: seen) auto

lemma subseq_first_occurrences: "subseq (first_occurrences seen es) es"
  by (induction es arbitrary: seen) auto

lemma first_occurrences_fixed:
  "distinct (map event_key_of es) \<Longrightarrow> set (map event_key_of es) \<inter> seen = {} \<Longrightarrow>
   first_occurrences seen es = es"
  by (induction es arbitrary: seen) auto

lemma deduplicate_event_keys:
  "distinct (map event_key_of (deduplicate es)) \<and>
   set (map event_key_of (deduplicate es)) = set (map event_key_of es) \<and>
   find (\<lambda>e. event_key_of e = k) (deduplicate es) = find (\<lambda>e. event_key_of e = k) es \<and>
   subseq (deduplicate es) es \<and>
   deduplicate (deduplicate es) = deduplicate es"
proof -
  have d: "deduplicate xs = first_occurrences {} xs" for xs
    by (simp add: deduplicate_def dedup_loop_first_occurrences)
  have "first_occurrences {} (first_occurrences {} es) = first_occurrences {} es"
    by (rule first_occurrences_fixed) (simp_all add: distinct_first_occurrences del: set_map)
  then show ?thesis
    by (simp add: d distinct_first_occurrences keys_first_occurrences find_first_occurrences
        subseq_first_occurrences del: set_map)
qed

text \<open>
  C7. The key of an event is the triple of its \<^verbatim>\<open>occurredAt\<close>, \<^verbatim>\<open>clientMac\<close> and
  \<^verbatim>\<open>type\<close>. The deduplicated list has one event for each key of the input and no key
  twice; the event it holds for a key is the first event of the input with that key; it
  is a subsequence of the input, so arrival order is kept; and deduplicating it again
  changes nothing. In \<open>duplicated_events\<close> one MAC is seen at two timestamps and with two
  types, and another MAC at the same timestamp: all four are kept, and only the fifth
  event, which repeats the triple of the first, is dropped.
\<close>

theorem deduplicate_first_occurrence:
  "distinct (map (\<lambda>e. (map_of e ''occurredAt'', map_of e ''clientMac'', map_of e ''type''))
     (deduplicate es)) \<and>
   set (map (\<lambda>e. (map_of e ''occurredAt'', map_of e ''clientMac'', map_of e ''type''))
     (deduplicate es)) =
     set (map (\<lambda>e. (map_of e ''occurredAt'', map_of e ''clientMac'', map_of e ''type'')) es) \<and>
   find (\<lambda>e. (map_of e ''occurredAt'', map_of e ''clientMac'', map_of e ''type'') = k)
     (deduplicate es) =
     find (\<lambda>e. (map_of e ''occurredAt'', map_of e ''clientMac'', map_of e ''type'') = k) es \<and>
   subseq (deduplicate es) es \<and>
   deduplicate (deduplicate es) = deduplicate es"
proof -
  have k: "event_key_of =
      (\<lambda>e. (map_of e ''occurredAt'', map_of e ''clientMac'', map_of e ''type''))"
    by (rule ext) (simp add: event_key_of_def)
  from deduplicate_event_keys [of es k] show ?thesis
    unfolding k .
qed

theorem deduplicate_first_occurrence_witness:
  "deduplicate duplicated_events = take 4 duplicated_events \<and>
   length (deduplicate duplicated_events) = 4 \<and>
   distinct (map (\<lambda>e. (map_of e ''occurredAt'', map_of e ''clientMac'', map_of e ''type''))
     (deduplicate duplicated_events)) \<and>
   find (\<lambda>e. (map_of e ''occurredAt'', map_of e ''clientMac'', map_of e ''type'') =
            (Some ''2025-06-23T19:30:00.000Z'', Some ''CC:CC'', Some ''association''))
     (deduplicate duplicated_events) = Some (hd duplicated_events) \<and>
   deduplicate (deduplicate duplicated_events) = deduplicate duplicated_events"
proof -
  have e: "deduplicate duplicated_events = take 4 duplicated_events"
    by (simp add: deduplicate_def duplicated_events_def event_key_of_def)
  have f: "find (\<lambda>e. (map_of e ''occurredAt'', map_of e ''clientMac'', map_of e ''type'') =
            (Some ''2025-06-23T19:30:00.000Z'', Some ''CC:CC'', Some ''association''))
     duplicated_events = Some (hd duplicated_events)"
    by (simp add: duplicated_events_def)
  have l: "length (take 4 duplicated_events) = 4"
    by (simp add: duplicated_events_def)
  note t = deduplicate_first_occurrence [of duplicated_events
      "(Some ''2025-06-23T19:30:00.000Z'', Some ''CC:CC'', Some ''association'')"]
  from t f have "find (\<lambda>e. (map_of e ''occurredAt'', map_of e ''clientMac'', map_of e ''type'') =
            (Some ''2025-06-23T19:30:00.000Z'', Some ''CC:CC'', Some ''association''))
     (deduplicate duplicated_events) = Some (hd duplicated_events)"
    by simp
  moreover from t have
    "distinct (map (\<lambda>e. (map_of e ''occurredAt'', map_of e ''clientMac'', map_of e ''type''))
       (deduplicate duplicated_events))"
    "deduplicate (deduplicate duplicated_events) = deduplicate duplicated_events"
    by simp_all
  moreover from e l have "length (deduplicate duplicated_events) = 4" by simp
  ultimately show ?thesis using e by (intro conjI)
qed

section \<open>Properties of the grouping by MAC\<close>

lemma map_of_group_append:
  "map_of (group_append m c g) k =
     (if k = m then Some ((case map_of g m of None \<Rightarrow> [] | Some cs \<Rightarrow> cs) @ [c]) else map_of g k)"
  by (induction m c g rule: group_append.induct) auto

lemma keys_group_append: "fst ` set (group_append m c g) = insert m (fst ` set g)"
  by (induction m c g rule: group_append.induct) auto

lemma distinct_group_append:
  "distinct (map fst g) \<Longrightarrow> distinct (map fst (group_append m c g))"
  by (induction m c g rule: group_append.induct) (auto simp: keys_group_append)

lemma group_target_day_snoc:
  "group_target_day (cs @ [c]) D =
     (if take 10 (timestamp c) = D \<and> client_mac c \<noteq> []
      then group_append (client_mac c) c (group_target_day cs D) else group_target_day cs D)"
  by (simp add: group_target_day_def)

lemma distinct_group_target_day: "distinct (map fst (group_target_day cs D))"
proof (induction cs rule: rev_induct)
  case Nil
  show ?case by (simp add: group_target_day_def)
next
  case (snoc c cs)
  then show ?case by (simp add: group_target_day_snoc distinct_group_append)
qed

lemma map_of_group_target_day:
  "map_of (group_target_day cs D) m =
     (if m \<noteq> [] \<and> day_connections cs D m \<noteq> [] then Some (day_connections cs D m) else None)"
proof (induction cs rule: rev_induct)
  case Nil
  show ?case by (simp add: group_target_day_def day_connections_def)
next
  case (snoc c cs)
  then show ?case
    by (auto simp: group_target_day_snoc map_of_group_append day_connections_def)
qed

lemma group_target_day_member:
  "(m, cs) \<in> set (group_target_day connections D) \<longleftrightarrow>
     m \<noteq> [] \<and> cs \<noteq> [] \<and> cs = day_connections connections D m"
proof -
  have "(m, cs) \<in> set (group_target_day connections D) \<longleftrightarrow>
        map_of (group_target_day connections D) m = Some cs"
    using distinct_group_target_day by (simp add: map_of_eq_Some_iff)
  then show ?thesis by (auto simp: map_of_group_target_day)
qed

section \<open>Properties of the loitering detector\<close>

lemma loitering_loop_result:
  "loitering_loop py gs acc = Inr lds \<Longrightarrow>
   lds = acc @ concat (map (\<lambda>g. case loitering_step py g of Inr (Some d) \<Rightarrow> [d] | _ \<Rightarrow> []) gs)"
proof (induction gs arbitrary: acc)
  case Nil
  then show ?case by simp
next
  case (Cons g gs)
  show ?case
  proof (cases "loitering_step py g")
    case (Inl e)
    with Cons.prems show ?thesis by simp
  next
    case (Inr res)
    show ?thesis
    proof (cases res)
      case None
      with Inr Cons.prems Cons.IH [of acc] show ?thesis by simp
    next
      case (Some d)
      with Inr Cons.prems Cons.IH [of "acc @ [d]"] show ?thesis by simp
    qed
  qed
qed

lemma loitering_step_mac: "loitering_step py g = Inr (Some d) \<Longrightarrow> mac d = fst g"
  by (auto simp: loitering_step_def Let_def split: if_splits option.splits sum.splits)

lemma round_tenths_nearest: "\<bar>us - round_tenths py us * 360000000\<bar> \<le> 180000000"
proof -
  define q where "q = us div 360000000"
  define r where "r = us mod 360000000"
  have "us = q * 360000000 + r" "0 \<le> r" "r < 360000000"
    by (simp_all add: q_def r_def)
  moreover have "round_tenths py us =
      (if r < 180000000 then q else if 180000000 < r then q + 1
       else if round_half_up py us then q + 1 else q)"
    by (simp add: round_tenths_def Let_def q_def r_def)
  ultimately show ?thesis by auto
qed

lemma loitering_step_Some:
  "loitering_step py (m, cs) = Inr (Some d) \<longleftrightarrow>
     2 \<le> length cs \<and>
     (\<exists>first_conn last_conn us.
        fromisoformat py (replace_Z (timestamp (hd (sort_key timestamp cs)))) = Some first_conn \<and>
        fromisoformat py (replace_Z (timestamp (last (sort_key timestamp cs)))) = Some last_conn \<and>
        dt_sub last_conn first_conn = Inr us \<and>
        6 \<le> hour first_conn \<and> hour first_conn < 18 \<and> 18 \<le> hour last_conn \<and>
        28800000000 < us \<and>
        d = \<lparr>mac = m,
             description = client_description (hd (sort_key timestamp cs)),
             target_date_connections = length cs,
             baseline_connections = 0,
             days_seen_out_of_hours = 1,
             networks = {},
             ssids = {},
             first_target_connection = Some (timestamp (hd (sort_key timestamp cs))),
             last_target_connection = Some (timestamp (last (sort_key timestamp cs))),
             risk_level = Some LOITERING_SUSPICIOUS,
             risk_explanation = LoiteringPattern (hour first_conn) (hour last_conn) us,
             duration_hours = Some (round_tenths py us),
             arrived_hour = Some (hour first_conn),
             departed_hour = Some (hour last_conn)\<rparr>)"
  by (auto simp: loitering_step_def Let_def split: option.splits sum.splits)

lemma loitering_step_fields:
  assumes "loitering_step py (m, cs) = Inr (Some d)"
  shows "\<exists>first_conn last_conn us.
        fromisoformat py (replace_Z (timestamp (hd (sort_key timestamp cs)))) = Some first_conn \<and>
        fromisoformat py (replace_Z (timestamp (last (sort_key timestamp cs)))) = Some last_conn \<and>
        dt_sub last_conn first_conn = Inr us \<and>
        6 \<le> hour first_conn \<and> hour first_conn < 18 \<and> 18 \<le> hour last_conn \<and>
        28800000000 < us \<and> 2 \<le> length cs \<and>
        mac d = m \<and>
        risk_level d = Some LOITERING_SUSPICIOUS \<and>
        risk_explanation d = LoiteringPattern (hour first_conn) (hour last_conn) us \<and>
        duration_hours d = Some (round_tenths py us) \<and>
        arrived_hour d = Some (hour first_conn) \<and>
        departed_hour d = Some (hour last_conn)"
  using assms
  by (auto simp: loitering_step_def Let_def split: option.splits sum.splits if_splits)

lemma detect_loitering_member:
  assumes "detect_loitering_patterns py connections D = Inr lds"
  shows "d \<in> set lds \<longleftrightarrow>
           mac d \<noteq> [] \<and>
           loitering_step py (mac d, day_connections connections D (mac d)) = Inr (Some d)"
proof -
  have lds: "lds = concat (map (\<lambda>g. case loitering_step py g of Inr (Some d) \<Rightarrow> [d] | _ \<Rightarrow> [])
                     (group_target_day connections D))"
    using loitering_loop_result [of py "group_target_day connections D" "[]" lds] assms
    by (simp add: detect_loitering_patterns_def)
  show ?thesis
  proof
    assume "d \<in> set lds"
    then obtain g where g: "g \<in> set (group_target_day connections D)"
      and s: "loitering_step py g = Inr (Some d)"
      unfolding lds by (auto split: sum.splits option.splits)
    from s have "fst g = mac d" by (simp add: loitering_step_mac)
    with g have "(mac d, snd g) \<in> set (group_target_day connections D)"
      by (metis prod.collapse)
    then have "mac d \<noteq> []" "snd g = day_connections connections D (mac d)"
      by (simp_all add: group_target_day_member)
    with s \<open>fst g = mac d\<close> show "mac d \<noteq> [] \<and>
        loitering_step py (mac d, day_connections connections D (mac d)) = Inr (Some d)"
      by (metis prod.collapse)
  next
    assume a: "mac d \<noteq> [] \<and>
        loitering_step py (mac d, day_connections connections D (mac d)) = Inr (Some d)"
    then have "day_connections connections D (mac d) \<noteq> []"
      by (auto simp: loitering_step_def)
    with a have "(mac d, day_connections connections D (mac d)) \<in> set (group_target_day connections D)"
      by (simp add: group_target_day_member)
    with a show "d \<in> set lds"
      unfolding lds by force
  qed
qed

lemma detect_loitering_distinct:
  assumes "detect_loitering_patterns py connections D = Inr lds"
  shows "distinct (map mac lds)"
proof -
  have step: "map mac (case loitering_step py g of Inr (Some d) \<Rightarrow> [d] | _ \<Rightarrow> []) =
              (case loitering_step py g of Inr (Some d) \<Rightarrow> [fst g] | _ \<Rightarrow> [])" for g
    by (auto split: sum.splits option.splits simp: loitering_step_mac)
  have sub: "distinct (map fst gs) \<Longrightarrow>
     distinct (concat (map (\<lambda>g. case loitering_step py g of Inr (Some d) \<Rightarrow> [fst g] | _ \<Rightarrow> []) gs)) \<and>
     set (concat (map (\<lambda>g. case loitering_step py g of Inr (Some d) \<Rightarrow> [fst g] | _ \<Rightarrow> []) gs)) \<subseteq> fst ` set gs" for gs
    by (induction gs) (auto split: sum.splits option.splits)
  have "lds = concat (map (\<lambda>g. case loitering_step py g of Inr (Some d) \<Rightarrow> [d] | _ \<Rightarrow> [])
                     (group_target_day connections D))"
    using loitering_loop_result [of py "group_target_day connections D" "[]" lds] assms
    by (simp add: detect_loitering_patterns_def)
  then have "map mac lds = concat (map (\<lambda>g. case loitering_step py g of Inr (Some d) \<Rightarrow> [fst g] | _ \<Rightarrow> [])
                     (group_target_day connections D))"
    by (simp add: map_concat comp_def step)
  with sub [OF distinct_group_target_day] show ?thesis by simp
qed

section \<open>Properties of the per-device patterns\<close>

lemma map_of_dict_set: "map_of (dict_set k v d) k' = (if k' = k then Some v else map_of d k')"
  by (induction k v d rule: dict_set.induct) auto

lemma keys_dict_set: "fst ` set (dict_set k v d) = insert k (fst ` set d)"
  by (induction k v d rule: dict_set.induct) auto

lemma distinct_dict_set: "distinct (map fst d) \<Longrightarrow> distinct (map fst (dict_set k v d))"
  by (induction k v d rule: dict_set.induct) (auto simp: keys_dict_set)

lemma pattern_loop_append:
  "pattern_loop py D p (xs @ ys) =
     (case pattern_loop py D p xs of Inl e \<Rightarrow> Inl e | Inr p' \<Rightarrow> pattern_loop py D p' ys)"
  by (induction xs arbitrary: p) (auto split: sum.splits)

lemma pattern_loop_no_mac:
  "\<forall>c \<in> set xs. client_mac c = [] \<Longrightarrow> pattern_loop py D p xs = Inr p"
  by (induction xs arbitrary: p) (auto simp: pattern_step_def)

lemma pattern_loop_needs_night:
  "pattern_loop py D p xs = Inr pats \<Longrightarrow> \<exists>c \<in> set xs. client_mac c \<noteq> [] \<Longrightarrow>
   \<exists>tdt ndt. fromisoformat py D = Some tdt \<and> add_one_day tdt = Inr ndt"
proof (induction xs arbitrary: p)
  case Nil
  then show ?case by simp
next
  case (Cons c cs)
  show ?case
  proof (cases "client_mac c = []")
    case True
    with Cons show ?thesis by (auto simp: pattern_step_def)
  next
    case False
    from Cons.prems(1) obtain p' where "pattern_step py D p c = Inr p'"
      by (auto split: sum.splits)
    with False show ?thesis
      by (auto simp: pattern_step_def Let_def split: option.splits sum.splits if_splits)
  qed
qed

lemma pattern_step_ok:
  assumes "fromisoformat py D = Some tdt" "add_one_day tdt = Inr ndt"
    and "is_out_of_hours py (timestamp c)" "client_mac c \<noteq> []"
  shows "pattern_step py D p c =
     Inr (dict_set (client_mac c)
       (let created = (case map_of p (client_mac c) of
                 None \<Rightarrow>
                   \<lparr>p_description = client_description c, p_networks = {}, p_ssids = {},
                    p_target_date_connections = [], p_baseline_connections = [],
                    p_all_dates = {}\<rparr>
               | Some d \<Rightarrow> d)
        in created
           \<lparr>p_networks := insert (network c) (p_networks created),
            p_ssids := insert (ssid c) (p_ssids created),
            p_all_dates := insert (take 10 (timestamp c)) (p_all_dates created),
            p_target_date_connections :=
              p_target_date_connections created @
                (if in_night_cycle py D (strftime_ymd py ndt) c then [c] else []),
            p_baseline_connections :=
              p_baseline_connections created @
                (if in_night_cycle py D (strftime_ymd py ndt) c then [] else [c])\<rparr>) p)"
proof -
  from assms(3) obtain dt where "fromisoformat py (replace_Z (timestamp c)) = Some dt"
    by (auto simp: is_out_of_hours_def out_of_hours_body_def split: option.splits)
  with assms show ?thesis
    by (cases "map_of p (client_mac c)") (auto simp: pattern_step_def Let_def in_night_cycle_def)
qed

lemma pattern_loop_patterns:
  assumes "fromisoformat py D = Some tdt" "add_one_day tdt = Inr ndt"
    and "\<forall>c \<in> set xs. is_out_of_hours py (timestamp c)"
  shows "\<exists>pats. pattern_loop py D [] xs = Inr pats \<and> distinct (map fst pats) \<and>
           (\<forall>m. map_of pats m =
              (if m \<noteq> [] \<and> filter (\<lambda>c. client_mac c = m) xs \<noteq> []
               then Some (pattern_of py D (strftime_ymd py ndt) (filter (\<lambda>c. client_mac c = m) xs))
               else None))"
  using assms(3)
proof (induction xs rule: rev_induct)
  case Nil
  show ?case by simp
next
  case (snoc c xs)
  then obtain pats where p: "pattern_loop py D [] xs = Inr pats" "distinct (map fst pats)"
    and m: "\<And>m. map_of pats m =
              (if m \<noteq> [] \<and> filter (\<lambda>c. client_mac c = m) xs \<noteq> []
               then Some (pattern_of py D (strftime_ymd py ndt) (filter (\<lambda>c. client_mac c = m) xs))
               else None)"
    by auto
  show ?case
  proof (cases "client_mac c = []")
    case True
    then have "pattern_loop py D [] (xs @ [c]) = Inr pats"
      by (simp add: pattern_loop_append p pattern_step_def)
    with p m True show ?thesis by auto
  next
    case False
    from snoc.prems have ooh: "is_out_of_hours py (timestamp c)" by simp
    note st = pattern_step_ok [OF assms(1,2) ooh False, of pats]
    then obtain pats' where pats': "pattern_step py D pats c = Inr pats'" by simp
    have loop: "pattern_loop py D [] (xs @ [c]) = Inr pats'"
      by (simp add: pattern_loop_append p pats')
    have d: "distinct (map fst pats')"
      using st pats' p(2) by (auto simp: distinct_dict_set)
    have "map_of pats' k =
              (if k \<noteq> [] \<and> filter (\<lambda>x. client_mac x = k) (xs @ [c]) \<noteq> []
               then Some (pattern_of py D (strftime_ymd py ndt) (filter (\<lambda>x. client_mac x = k) (xs @ [c])))
               else None)" for k
    proof (cases "k = client_mac c")
      case True
      show ?thesis
      proof (cases "filter (\<lambda>x. client_mac x = k) xs = []")
        case True
        with \<open>k = client_mac c\<close> False st pats' m [of k] show ?thesis
          by (auto simp: map_of_dict_set pattern_of_def Let_def)
      next
        case ne: False
        then have "hd (filter (\<lambda>x. client_mac x = k) xs @ [c]) = hd (filter (\<lambda>x. client_mac x = k) xs)"
          by simp
        with ne \<open>k = client_mac c\<close> False st pats' m [of k] show ?thesis
          by (auto simp: map_of_dict_set pattern_of_def Let_def)
      qed
    next
      case False
      with st pats' m [of k] show ?thesis
        by (auto simp: map_of_dict_set)
    qed
    with loop d show ?thesis by blast
  qed
qed


lemma build_device_patterns_result:
  assumes "build_device_patterns py connections D = Inr pats"
  shows "distinct (map fst pats) \<and>
         (\<forall>m data. map_of pats m = Some data \<longleftrightarrow>
            m \<noteq> [] \<and> out_of_hours_of py connections m \<noteq> [] \<and>
            (\<exists>tdt ndt. fromisoformat py D = Some tdt \<and> add_one_day tdt = Inr ndt \<and>
               data = pattern_of py D (strftime_ymd py ndt) (out_of_hours_of py connections m)))"
proof -
  define xs where "xs = filter (\<lambda>c. is_out_of_hours py (timestamp c)) connections"
  have loop: "pattern_loop py D [] xs = Inr pats"
    using assms by (simp add: build_device_patterns_def xs_def)
  have of_m: "filter (\<lambda>c. client_mac c = m) xs = out_of_hours_of py connections m" for m
    by (simp add: xs_def out_of_hours_of_def conj_commute)
  show ?thesis
  proof (cases "\<exists>c \<in> set xs. client_mac c \<noteq> []")
    case False
    then have "pats = []"
      using loop pattern_loop_no_mac [of xs py D "[]"] by simp
    moreover have "out_of_hours_of py connections m = []" if "m \<noteq> []" for m
      using False that unfolding of_m [symmetric] by (auto simp: filter_empty_conv)
    ultimately show ?thesis by auto
  next
    case True
    from pattern_loop_needs_night [OF loop True] obtain tdt ndt where
      n: "fromisoformat py D = Some tdt" "add_one_day tdt = Inr ndt" by blast
    have "\<forall>c \<in> set xs. is_out_of_hours py (timestamp c)" by (simp add: xs_def)
    from pattern_loop_patterns [OF n this] loop
    have "distinct (map fst pats)" and
      m: "\<And>m. map_of pats m =
              (if m \<noteq> [] \<and> out_of_hours_of py connections m \<noteq> []
               then Some (pattern_of py D (strftime_ymd py ndt) (out_of_hours_of py connections m))
               else None)"
      by (auto simp: of_m)
    then show ?thesis using n by auto
  qed
qed


section \<open>Properties of the classification loop\<close>

lemmas state_defs = alloc_def assign_def append_target_date_def append_anomalous_def
  append_baseline_regular_def append_baseline_only_def

lemma classify_step_target:
  assumes tc: "0 < length (p_target_date_connections data)"
  shows "target_record lds m data (heap (classify_step lds st (m, data)) ! length (heap st)) \<and>
           heap (classify_step lds st (m, data)) =
             heap st @ [heap (classify_step lds st (m, data)) ! length (heap st)] \<and>
           target_date_refs (classify_step lds st (m, data)) =
             target_date_refs st @ [length (heap st)] \<and>
           anomalous_refs (classify_step lds st (m, data)) =
             anomalous_refs st @
               (if risk_level (heap (classify_step lds st (m, data)) ! length (heap st)) =
                     Some BASELINE_REGULAR then [] else [length (heap st)]) \<and>
           baseline_regular_refs (classify_step lds st (m, data)) =
             baseline_regular_refs st @
               (if risk_level (heap (classify_step lds st (m, data)) ! length (heap st)) =
                     Some BASELINE_REGULAR then [length (heap st)] else [])"
proof (cases "find (\<lambda>ld. mac ld = m) lds")
  case (Some ld)
  with tc show ?thesis
    by (simp add: classify_step_def Let_def state_defs target_record_def)
next
  case None
  consider (a) "length (p_baseline_connections data) = 0"
    | (b) "length (p_baseline_connections data) \<noteq> 0" "2 \<le> card (p_all_dates data)"
    | (c) "length (p_baseline_connections data) \<noteq> 0" "\<not> 2 \<le> card (p_all_dates data)"
          "3 \<le> length (p_baseline_connections data)"
    | (d) "length (p_baseline_connections data) \<noteq> 0" "\<not> 2 \<le> card (p_all_dates data)"
          "\<not> 3 \<le> length (p_baseline_connections data)"
    by blast
  then show ?thesis
  proof cases
    case a
    with tc None show ?thesis
      by (simp add: classify_step_def Let_def state_defs target_record_def)
  next
    case b
    with tc None show ?thesis
      by (simp add: classify_step_def Let_def state_defs target_record_def)
  next
    case c
    with tc None show ?thesis
      by (simp add: classify_step_def Let_def state_defs target_record_def)
  next
    case d
    with tc None show ?thesis
      by (simp add: classify_step_def Let_def state_defs target_record_def)
  qed
qed

lemma classify_step_other:
  assumes "length (p_target_date_connections data) = 0"
  shows "\<exists>objs extra.
           heap (classify_step lds st (m, data)) = heap st @ objs \<and>
           target_date_refs (classify_step lds st (m, data)) = target_date_refs st \<and>
           anomalous_refs (classify_step lds st (m, data)) = anomalous_refs st \<and>
           baseline_regular_refs (classify_step lds st (m, data)) =
             baseline_regular_refs st @ extra"
  using assms
  by (simp add: classify_step_def Let_def state_defs)


lemma classified_upto_step:
  assumes inv: "classified_upto lds ps st"
  shows "classified_upto lds (ps @ [kv]) (classify_step lds st kv)"
proof -
  obtain m data where kv: "kv = (m, data)" by (cases kv)
  define st' where "st' = classify_step lds st (m, data)"
  from inv have old:
    "\<And>r. r \<in> set (target_date_refs st) \<Longrightarrow> r < length (heap st)"
    "\<And>r. r \<in> set (target_date_refs st) \<Longrightarrow>
       \<exists>kv \<in> set ps. 0 < length (p_target_date_connections (snd kv)) \<and>
                        target_record lds (fst kv) (snd kv) (heap st ! r)"
    "\<And>r. r \<in> set (target_date_refs st) \<Longrightarrow>
       (if risk_level (heap st ! r) = Some BASELINE_REGULAR
          then r \<in> set (baseline_regular_refs st) else r \<in> set (anomalous_refs st))"
    "\<And>kv. kv \<in> set ps \<Longrightarrow> 0 < length (p_target_date_connections (snd kv)) \<Longrightarrow>
         \<exists>r \<in> set (target_date_refs st).
            r < length (heap st) \<and> target_record lds (fst kv) (snd kv) (heap st ! r)"
    unfolding classified_upto_def by blast+
  show ?thesis
  proof (cases "0 < length (p_target_date_connections data)")
    case True
    define d where "d = heap st' ! length (heap st)"
    from classify_step_target [OF True, of lds m st]
    have new: "target_record lds m data d" "heap st' = heap st @ [d]"
      "target_date_refs st' = target_date_refs st @ [length (heap st)]"
      "anomalous_refs st' = anomalous_refs st @
               (if risk_level d = Some BASELINE_REGULAR then [] else [length (heap st)])"
      "baseline_regular_refs st' = baseline_regular_refs st @
               (if risk_level d = Some BASELINE_REGULAR then [length (heap st)] else [])"
      unfolding st'_def d_def by blast+
    have keep: "heap st' ! r = heap st ! r" if "r < length (heap st)" for r
      using that by (simp add: new(2) nth_append)
    have last: "heap st' ! length (heap st) = d" by (simp add: new(2))
    have "classified_upto lds (ps @ [(m, data)]) st'"
      unfolding classified_upto_def
    proof (intro conjI ballI impI)
      fix r assume r: "r \<in> set (target_date_refs st')"
      then consider (o) "r \<in> set (target_date_refs st)" | (n) "r = length (heap st)"
        by (auto simp: new(3))
      then show "r < length (heap st')"
      proof cases
        case o
        from old(1) [OF o] show ?thesis by (simp add: new(2))
      next
        case n
        then show ?thesis by (simp add: new(2))
      qed
      from r consider (o) "r \<in> set (target_date_refs st)" | (n) "r = length (heap st)"
        by (auto simp: new(3))
      then show "\<exists>kv \<in> set (ps @ [(m, data)]). 0 < length (p_target_date_connections (snd kv)) \<and>
                        target_record lds (fst kv) (snd kv) (heap st' ! r)"
      proof cases
        case o
        with old(1) [OF o] old(2) [OF o] show ?thesis by (auto simp: keep)
      next
        case n
        with True new(1) show ?thesis by (simp add: last)
      qed
      from r consider (o) "r \<in> set (target_date_refs st)" | (n) "r = length (heap st)"
        by (auto simp: new(3))
      then show "if risk_level (heap st' ! r) = Some BASELINE_REGULAR
          then r \<in> set (baseline_regular_refs st') else r \<in> set (anomalous_refs st')"
      proof cases
        case o
        with old(1) [OF o] old(3) [OF o] show ?thesis
          by (auto simp: keep new(4,5) split: if_splits)
      next
        case n
        then show ?thesis by (simp add: last new(4,5))
      qed
    next
      fix kv' assume kv': "kv' \<in> set (ps @ [(m, data)])"
        and t: "0 < length (p_target_date_connections (snd kv'))"
      from kv' consider (o) "kv' \<in> set ps" | (n) "kv' = (m, data)" by auto
      then show "\<exists>r \<in> set (target_date_refs st').
            r < length (heap st') \<and> target_record lds (fst kv') (snd kv') (heap st' ! r)"
      proof cases
        case o
        from old(4) [OF o t] obtain r where r: "r \<in> set (target_date_refs st)"
          "r < length (heap st)" "target_record lds (fst kv') (snd kv') (heap st ! r)" by blast
        have "r \<in> set (target_date_refs st')" using r(1) by (simp add: new(3))
        moreover have "r < length (heap st')" using r(2) by (simp add: new(2))
        moreover have "target_record lds (fst kv') (snd kv') (heap st' ! r)"
          using r(2,3) by (simp add: keep)
        ultimately show ?thesis by blast
      next
        case n
        have "length (heap st) \<in> set (target_date_refs st')" by (simp add: new(3))
        moreover have "length (heap st) < length (heap st')" by (simp add: new(2))
        moreover have "target_record lds (fst kv') (snd kv') (heap st' ! length (heap st))"
          using n new(1) by (simp add: last)
        ultimately show ?thesis by blast
      qed
    qed
    then show ?thesis by (simp add: kv st'_def)
  next
    case False
    then have z: "length (p_target_date_connections data) = 0" by simp
    from classify_step_other [OF z, of lds st m] obtain objs extra where
      new: "heap st' = heap st @ objs" "target_date_refs st' = target_date_refs st"
      "anomalous_refs st' = anomalous_refs st"
      "baseline_regular_refs st' = baseline_regular_refs st @ extra"
      unfolding st'_def by blast
    have keep: "heap st' ! r = heap st ! r" if "r < length (heap st)" for r
      using that by (simp add: new(1) nth_append)
    have "classified_upto lds (ps @ [(m, data)]) st'"
      unfolding classified_upto_def
    proof (intro conjI ballI impI)
      fix r assume "r \<in> set (target_date_refs st')"
      then have o: "r \<in> set (target_date_refs st)" by (simp add: new(2))
      from old(1) [OF o] show "r < length (heap st')" by (simp add: new(1))
      from old(1) [OF o] old(2) [OF o]
      show "\<exists>kv \<in> set (ps @ [(m, data)]). 0 < length (p_target_date_connections (snd kv)) \<and>
                        target_record lds (fst kv) (snd kv) (heap st' ! r)"
        by (auto simp: keep)
      from old(1) [OF o] old(3) [OF o]
      show "if risk_level (heap st' ! r) = Some BASELINE_REGULAR
          then r \<in> set (baseline_regular_refs st') else r \<in> set (anomalous_refs st')"
        by (auto simp: keep new(3,4) split: if_splits)
    next
      fix kv' assume kv': "kv' \<in> set (ps @ [(m, data)])"
        and t: "0 < length (p_target_date_connections (snd kv'))"
      with False have o: "kv' \<in> set ps" by auto
      from old(4) [OF o t] obtain r where r: "r \<in> set (target_date_refs st)"
          "r < length (heap st)" "target_record lds (fst kv') (snd kv') (heap st ! r)" by blast
      have "r \<in> set (target_date_refs st')" using r(1) by (simp add: new(2))
      moreover have "r < length (heap st')" using r(2) by (simp add: new(1))
      moreover have "target_record lds (fst kv') (snd kv') (heap st' ! r)"
        using r(2,3) by (simp add: keep)
      ultimately show "\<exists>r \<in> set (target_date_refs st').
            r < length (heap st') \<and> target_record lds (fst kv') (snd kv') (heap st' ! r)"
        by blast
    qed
    then show ?thesis by (simp add: kv st'_def)
  qed
qed

lemma classified_upto_loop:
  "classified_upto lds ps (foldl (classify_step lds) initial_state ps)"
proof (induction ps rule: rev_induct)
  case Nil
  show ?case by (simp add: classified_upto_def initial_state_def)
next
  case (snoc kv ps)
  then show ?case by (simp add: classified_upto_step)
qed


section \<open>From the returned analysis back to the connections\<close>

lemma find_distinct:
  "distinct (map f xs) \<Longrightarrow> x \<in> set xs \<Longrightarrow> find (\<lambda>y. f y = f x) xs = Some x"
  by (induction xs) (auto simp: image_iff)

lemma find_mac_None: "find (\<lambda>ld. mac ld = m) lds = None \<longleftrightarrow> m \<notin> mac ` set lds"
  by (auto simp: find_None_iff)

lemma analyze_state_parts:
  assumes "analyze_state py connections target_date today = Inr (lds, st)"
  shows "\<exists>pats. build_device_patterns py connections
                  (resolve_target_date connections target_date today) = Inr pats \<and>
               detect_loitering_patterns py connections
                  (resolve_target_date connections target_date today) = Inr lds \<and>
               st = foldl (classify_step lds) initial_state pats"
  using assms by (auto simp: analyze_state_def Let_def split: sum.splits)

lemma analyze_state_refs:
  assumes a: "analyze_state py connections target_date today = Inr (lds, st)"
    and r: "r \<in> set (target_date_refs st)"
    and D: "D = resolve_target_date connections target_date today"
  shows "\<exists>tdt ndt. r < length (heap st) \<and> mac (heap st ! r) \<noteq> [] \<and>
           fromisoformat py D = Some tdt \<and> add_one_day tdt = Inr ndt \<and>
           0 < target_count py connections D (strftime_ymd py ndt) (mac (heap st ! r)) \<and>
           target_record lds (mac (heap st ! r))
             (pattern_of py D (strftime_ymd py ndt)
                (out_of_hours_of py connections (mac (heap st ! r)))) (heap st ! r) \<and>
           (if risk_level (heap st ! r) = Some BASELINE_REGULAR
            then r \<in> set (baseline_regular_refs st) else r \<in> set (anomalous_refs st))"
proof -
  from analyze_state_parts [OF a] obtain pats where
    b: "build_device_patterns py connections D = Inr pats"
    and st: "st = foldl (classify_step lds) initial_state pats"
    unfolding D by blast
  have inv: "classified_upto lds pats st"
    unfolding st by (rule classified_upto_loop)
  from inv r obtain kv where kv: "kv \<in> set pats"
    "0 < length (p_target_date_connections (snd kv))"
    "target_record lds (fst kv) (snd kv) (heap st ! r)"
    and lt: "r < length (heap st)"
    and bucket: "if risk_level (heap st ! r) = Some BASELINE_REGULAR
            then r \<in> set (baseline_regular_refs st) else r \<in> set (anomalous_refs st)"
    unfolding classified_upto_def by blast
  from build_device_patterns_result [OF b] have dist: "distinct (map fst pats)"
    and char: "\<And>m data. map_of pats m = Some data \<longleftrightarrow>
            m \<noteq> [] \<and> out_of_hours_of py connections m \<noteq> [] \<and>
            (\<exists>tdt ndt. fromisoformat py D = Some tdt \<and> add_one_day tdt = Inr ndt \<and>
               data = pattern_of py D (strftime_ymd py ndt) (out_of_hours_of py connections m))"
    by blast+
  from kv(1) dist have "map_of pats (fst kv) = Some (snd kv)" by simp
  with char obtain tdt ndt where n: "fst kv \<noteq> []" "fromisoformat py D = Some tdt"
    "add_one_day tdt = Inr ndt"
    "snd kv = pattern_of py D (strftime_ymd py ndt) (out_of_hours_of py connections (fst kv))"
    by blast
  from kv(3) have m: "mac (heap st ! r) = fst kv" by (simp add: target_record_def)
  from kv(2) n(4) have "0 < target_count py connections D (strftime_ymd py ndt) (fst kv)"
    by (simp add: target_count_def pattern_of_def)
  with n kv(3) lt bucket show ?thesis unfolding m by auto
qed

lemma analyze_state_target_mac:
  assumes a: "analyze_state py connections target_date today = Inr (lds, st)"
    and D: "D = resolve_target_date connections target_date today"
    and n: "fromisoformat py D = Some tdt" "add_one_day tdt = Inr ndt"
    and m: "m \<noteq> []" "0 < target_count py connections D (strftime_ymd py ndt) m"
  shows "\<exists>r \<in> set (target_date_refs st). mac (heap st ! r) = m"
proof -
  from analyze_state_parts [OF a] obtain pats where
    b: "build_device_patterns py connections D = Inr pats"
    and st: "st = foldl (classify_step lds) initial_state pats"
    unfolding D by blast
  have inv: "classified_upto lds pats st"
    unfolding st by (rule classified_upto_loop)
  define data where "data = pattern_of py D (strftime_ymd py ndt) (out_of_hours_of py connections m)"
  from m(2) have ne: "out_of_hours_of py connections m \<noteq> []"
    by (auto simp: target_count_def)
  from build_device_patterns_result [OF b] m(1) ne n have "map_of pats m = Some data"
    unfolding data_def by blast
  then have "(m, data) \<in> set pats" by (rule map_of_SomeD)
  moreover from m(2) have "0 < length (p_target_date_connections (snd (m, data)))"
    by (simp add: data_def pattern_of_def target_count_def)
  ultimately obtain r where "r \<in> set (target_date_refs st)"
    "target_record lds (fst (m, data)) (snd (m, data)) (heap st ! r)"
    using inv unfolding classified_upto_def by blast
  then show ?thesis by (auto simp: target_record_def)
qed

lemma target_record_level:
  assumes "target_record lds m data d"
  shows "risk_level d =
           Some (if mac d \<in> mac ` set lds then LOITERING_SUSPICIOUS
                 else if baseline_connections d = 0 then ANOMALOUS_SUSPICIOUS
                 else if baseline_connections d \<ge> 1 \<and> days_seen_out_of_hours d \<ge> 2
                      then BASELINE_REGULAR
                 else if baseline_connections d \<ge> 3 then BASELINE_REGULAR
                 else ANOMALOUS_SUSPICIOUS)"
proof (cases "find (\<lambda>ld. mac ld = m) lds")
  case None
  then have "m \<notin> mac ` set lds" by (simp add: find_mac_None)
  with assms None show ?thesis by (simp add: target_record_def)
next
  case (Some ld)
  then have "ld \<in> set lds" "mac ld = m" by (auto simp: find_Some_iff)
  then have "m \<in> mac ` set lds" by auto
  with assms Some show ?thesis by (simp add: target_record_def)
qed

lemma analysis_devices:
  assumes "analyze_out_of_hours_patterns py connections target_date today = Inr a"
  shows "\<exists>lds st. analyze_state py connections target_date today = Inr (lds, st) \<and>
           loitering_devices a = lds \<and>
           target_date_devices a = map (\<lambda>r. heap st ! r) (target_date_refs st) \<and>
           anomalous_devices a = map (\<lambda>r. heap st ! r) (anomalous_refs st) \<and>
           baseline_regular_devices a = map (\<lambda>r. heap st ! r) (baseline_regular_refs st)"
  using assms
  by (auto simp: analyze_out_of_hours_patterns_def read_analysis_def Let_def split: sum.splits)

lemma target_bucket_record:
  assumes a: "analyze_out_of_hours_patterns py connections target_date today = Inr a"
    and D: "D = resolve_target_date connections target_date today"
    and n: "fromisoformat py D = Some tdt" "add_one_day tdt = Inr ndt"
    and d: "d \<in> set (target_date_devices a)"
  shows "mac d \<noteq> [] \<and> 0 < target_count py connections D (strftime_ymd py ndt) (mac d) \<and>
         target_record (loitering_devices a) (mac d)
           (pattern_of py D (strftime_ymd py ndt) (out_of_hours_of py connections (mac d))) d \<and>
         (if risk_level d = Some BASELINE_REGULAR
          then d \<in> set (baseline_regular_devices a) else d \<in> set (anomalous_devices a))"
proof -
  from analysis_devices [OF a] obtain lds st where
    s: "analyze_state py connections target_date today = Inr (lds, st)"
    and b: "loitering_devices a = lds"
      "target_date_devices a = map (\<lambda>r. heap st ! r) (target_date_refs st)"
      "anomalous_devices a = map (\<lambda>r. heap st ! r) (anomalous_refs st)"
      "baseline_regular_devices a = map (\<lambda>r. heap st ! r) (baseline_regular_refs st)"
    by blast
  from d obtain r where r: "r \<in> set (target_date_refs st)" "d = heap st ! r"
    by (auto simp: b(2))
  from analyze_state_refs [OF s r(1) D] n show ?thesis
    unfolding b r(2) by (auto split: if_splits)
qed

lemma build_needs_night:
  assumes "build_device_patterns py connections D = Inr pats"
    and "m \<noteq> []" and "out_of_hours_of py connections m \<noteq> []"
  shows "\<exists>tdt ndt. fromisoformat py D = Some tdt \<and> add_one_day tdt = Inr ndt"
proof -
  from assms(3) obtain c where "c \<in> set (out_of_hours_of py connections m)"
    by (cases "out_of_hours_of py connections m") auto
  then have "c \<in> set (filter (\<lambda>c. is_out_of_hours py (timestamp c)) connections)"
    "client_mac c \<noteq> []"
    using assms(2) by (auto simp: out_of_hours_of_def)
  then have "\<exists>c \<in> set (filter (\<lambda>c. is_out_of_hours py (timestamp c)) connections).
               client_mac c \<noteq> []" by blast
  with assms(1) show ?thesis
    unfolding build_device_patterns_def by (rule pattern_loop_needs_night)
qed

lemma flagged_has_target:
  assumes det: "detect_loitering_patterns py connections D = Inr lds" and ld: "ld \<in> set lds"
  shows "mac ld \<noteq> [] \<and> 0 < target_count py connections D nd (mac ld)"
proof -
  define cs where "cs = day_connections connections D (mac ld)"
  from detect_loitering_member [OF det, of ld] ld
  have m: "mac ld \<noteq> []" and s: "loitering_step py (mac ld, cs) = Inr (Some ld)"
    by (simp_all add: cs_def)
  from loitering_step_fields [OF s] obtain last_conn where
    l: "fromisoformat py (replace_Z (timestamp (last (sort_key timestamp cs)))) = Some last_conn"
    "18 \<le> hour last_conn" "2 \<le> length cs"
    by blast
  define c where "c = last (sort_key timestamp cs)"
  from l(3) have "sort_key timestamp cs \<noteq> []" by (auto simp flip: length_0_conv)
  then have "c \<in> set (sort_key timestamp cs)" unfolding c_def by (rule last_in_set)
  then have "c \<in> set cs" by simp
  then have c: "c \<in> set connections" "take 10 (timestamp c) = D" "client_mac c = mac ld"
    by (auto simp: cs_def day_connections_def)
  from l(1,2) have "is_out_of_hours py (timestamp c)"
    by (simp add: c_def is_out_of_hours_def out_of_hours_body_def)
  with c have "c \<in> set (out_of_hours_of py connections (mac ld))"
    by (simp add: out_of_hours_of_def)
  moreover from l(1,2) c(2) have "in_night_cycle py D nd c"
    by (simp add: in_night_cycle_def c_def)
  ultimately have "filter (in_night_cycle py D nd) (out_of_hours_of py connections (mac ld)) \<noteq> []"
    by (auto simp: filter_empty_conv)
  with m show ?thesis by (simp add: target_count_def)
qed

section \<open>The examples, evaluated\<close>

lemma parse_hms_hour: "parse_hms s = Some (h, m, sec) \<Longrightarrow> h < 24"
  by (auto simp: parse_hms_def split: if_splits option.splits)

lemma iso_parse_hour: "iso_parse s = Some dt \<Longrightarrow> hour dt < 24"
  by (auto simp: iso_parse_def dest: parse_hms_hour split: option.splits prod.splits if_splits)

lemma py0_hours_below_24: "hours_below_24 py0"
  by (simp add: hours_below_24_def py0_def iso_parse_hour)

lemma example_date_parse: "fromisoformat py0 ''2025-06-23'' = Some example_date"
  by code_simp

lemma example_next_day: "add_one_day example_date = Inr example_next_date"
  by code_simp

lemma example_next_day_str: "strftime_ymd py0 example_next_date = ''2025-06-24''"
  by code_simp

lemma loitering_example_detect:
  "detect_loitering_patterns py0 loitering_example ''2025-06-23'' = Inr [loitering_flag]"
  by code_simp

lemma loitering_example_state:
  "analyze_state py0 loitering_example ''2025-06-23'' [] = Inr ([loitering_flag], loitering_state)"
  by code_simp

lemma loitering_example_analysis:
  "analyze_out_of_hours_patterns py0 loitering_example ''2025-06-23'' [] = Inr loitering_analysis"
  by code_simp

lemma single_day_example_analysis:
  "analyze_out_of_hours_patterns py0 single_day_example ''2025-06-23'' [] = Inr single_day_analysis"
  by code_simp

lemma next_morning_example_analysis:
  "analyze_out_of_hours_patterns py0 next_morning_example ''2025-06-23'' [] =
     Inr next_morning_analysis"
  by code_simp


lemma single_day_counts:
  "target_count py0 single_day_example ''2025-06-23'' ''2025-06-24'' ''DD:DD'' = 1"
  "baseline_count py0 single_day_example ''2025-06-23'' ''2025-06-24'' ''DD:DD'' = 3"
  "days_seen py0 single_day_example ''DD:DD'' = 1"
  by code_simp+

lemma next_morning_counts:
  "target_count py0 next_morning_example ''2025-06-23'' ''2025-06-24'' ''BB:BB'' = 1"
  "baseline_count py0 next_morning_example ''2025-06-23'' ''2025-06-24'' ''BB:BB'' = 0"
  by code_simp+

lemma loitering_example_counts:
  "target_count py0 loitering_example ''2025-06-23'' ''2025-06-24'' ''CC:CC'' = 1"
  "baseline_count py0 loitering_example ''2025-06-23'' ''2025-06-24'' ''CC:CC'' = 0"
  by code_simp+


text \<open>
  The next day of a target date before the year 1000 depends on the platform: where
  the year is written without leading zeros it is not the date prefix of any timestamp,
  and a connection of the next morning counts as baseline.
\<close>

lemma early_year_example_platforms:
  "map_sum id (map (\<lambda>d. (target_date_connections d, baseline_connections d, risk_level d))
       \<circ> target_date_devices)
     (analyze_out_of_hours_patterns py0 early_year_example ''0500-06-23'' []) =
     Inr [(2, 0, Some ANOMALOUS_SUSPICIOUS)]"
  "map_sum id (map (\<lambda>d. (target_date_connections d, baseline_connections d, risk_level d))
       \<circ> target_date_devices)
     (analyze_out_of_hours_patterns py_unpadded early_year_example ''0500-06-23'' []) =
     Inr [(1, 1, Some BASELINE_REGULAR)]"
  by code_simp+

section \<open>The flags of the loitering detector\<close>

text \<open>
  C4. When the detector returns, it flags a MAC for the target date exactly when the
  MAC is not empty, has at least two connections dated the target date and, with these
  sorted by timestamp, the first one's hour is in [6, 18), the last one's hour is at
  least 18 and the time from the first to the last exceeds eight hours. The emitted
  \<^verbatim>\<open>duration_hours\<close>, in tenths of an hour, is a tenth nearest to the elapsed time; the
  example that arrives at 09:00 and is last seen at 19:30 gets 10.5 hours. The detector
  groups all connections, not only the out-of-hours ones.
\<close>

theorem loitering_flag_iff:
  assumes "detect_loitering_patterns py connections D = Inr lds"
  shows "(m \<in> mac ` set lds \<longleftrightarrow>
            m \<noteq> [] \<and> 2 \<le> length (day_connections connections D m) \<and>
            (\<exists>first_conn last_conn us.
               fromisoformat py (replace_Z (timestamp (hd (sort_key timestamp
                 (day_connections connections D m))))) = Some first_conn \<and>
               fromisoformat py (replace_Z (timestamp (last (sort_key timestamp
                 (day_connections connections D m))))) = Some last_conn \<and>
               dt_sub last_conn first_conn = Inr us \<and>
               6 \<le> hour first_conn \<and> hour first_conn < 18 \<and> 18 \<le> hour last_conn \<and>
               8 * 3600 * 1000000 < us)) \<and>
         (\<forall>d \<in> set lds. \<exists>first_conn last_conn us tenths.
               fromisoformat py (replace_Z (timestamp (hd (sort_key timestamp
                 (day_connections connections D (mac d)))))) = Some first_conn \<and>
               fromisoformat py (replace_Z (timestamp (last (sort_key timestamp
                 (day_connections connections D (mac d)))))) = Some last_conn \<and>
               dt_sub last_conn first_conn = Inr us \<and>
               duration_hours d = Some tenths \<and>
               \<bar>us - tenths * 360000000\<bar> \<le> 180000000)"
proof (intro conjI ballI)
  show "m \<in> mac ` set lds \<longleftrightarrow>
            m \<noteq> [] \<and> 2 \<le> length (day_connections connections D m) \<and>
            (\<exists>first_conn last_conn us.
               fromisoformat py (replace_Z (timestamp (hd (sort_key timestamp
                 (day_connections connections D m))))) = Some first_conn \<and>
               fromisoformat py (replace_Z (timestamp (last (sort_key timestamp
                 (day_connections connections D m))))) = Some last_conn \<and>
               dt_sub last_conn first_conn = Inr us \<and>
               6 \<le> hour first_conn \<and> hour first_conn < 18 \<and> 18 \<le> hour last_conn \<and>
               8 * 3600 * 1000000 < us)" (is "?L \<longleftrightarrow> ?R")
  proof
    assume ?L
    then obtain d where d: "d \<in> set lds" "mac d = m" by auto
    then have "m \<noteq> []" "loitering_step py (m, day_connections connections D m) = Inr (Some d)"
      using detect_loitering_member [OF assms, of d] by auto
    then show ?R
      unfolding loitering_step_Some by auto
  next
    assume r: ?R
    then obtain d where s: "loitering_step py (m, day_connections connections D m) = Inr (Some d)"
      unfolding loitering_step_Some by auto
    then have "mac d = m" by (simp add: loitering_step_mac)
    with s r have "d \<in> set lds"
      using detect_loitering_member [OF assms, of d] by simp
    with \<open>mac d = m\<close> show ?L by auto
  qed
next
  fix d assume "d \<in> set lds"
  then have "loitering_step py (mac d, day_connections connections D (mac d)) = Inr (Some d)"
    using detect_loitering_member [OF assms, of d] by simp
  from loitering_step_fields [OF this] obtain first_conn last_conn us where
      "fromisoformat py (replace_Z (timestamp (hd (sort_key timestamp
                 (day_connections connections D (mac d)))))) = Some first_conn"
      "fromisoformat py (replace_Z (timestamp (last (sort_key timestamp
                 (day_connections connections D (mac d)))))) = Some last_conn"
      "dt_sub last_conn first_conn = Inr us"
      "duration_hours d = Some (round_tenths py us)"
    by blast
  then show "\<exists>first_conn last_conn us tenths.
               fromisoformat py (replace_Z (timestamp (hd (sort_key timestamp
                 (day_connections connections D (mac d)))))) = Some first_conn \<and>
               fromisoformat py (replace_Z (timestamp (last (sort_key timestamp
                 (day_connections connections D (mac d)))))) = Some last_conn \<and>
               dt_sub last_conn first_conn = Inr us \<and>
               duration_hours d = Some tenths \<and>
               \<bar>us - tenths * 360000000\<bar> \<le> 180000000"
    using round_tenths_nearest [of us py] by auto
qed

theorem loitering_flag_iff_witness:
  "detect_loitering_patterns py0 loitering_example ''2025-06-23'' = Inr [loitering_flag] \<and>
   ''CC:CC'' \<in> mac ` set [loitering_flag] \<and>
   duration_hours loitering_flag = Some 105 \<and>
   2 \<le> length (day_connections loitering_example ''2025-06-23'' ''CC:CC'') \<and>
   (\<exists>first_conn last_conn us.
      fromisoformat py0 (replace_Z (timestamp (hd (sort_key timestamp
        (day_connections loitering_example ''2025-06-23'' ''CC:CC''))))) = Some first_conn \<and>
      fromisoformat py0 (replace_Z (timestamp (last (sort_key timestamp
        (day_connections loitering_example ''2025-06-23'' ''CC:CC''))))) = Some last_conn \<and>
      dt_sub last_conn first_conn = Inr us \<and>
      6 \<le> hour first_conn \<and> hour first_conn < 18 \<and> 18 \<le> hour last_conn \<and>
      8 * 3600 * 1000000 < us)"
proof -
  have f: "''CC:CC'' \<in> mac ` set [loitering_flag]" "duration_hours loitering_flag = Some 105"
    by (simp_all add: loitering_flag_def)
  from loitering_flag_iff [OF loitering_example_detect, of "''CC:CC''"] f(1)
  have "''CC:CC'' \<noteq> [] \<and> 2 \<le> length (day_connections loitering_example ''2025-06-23'' ''CC:CC'') \<and>
   (\<exists>first_conn last_conn us.
      fromisoformat py0 (replace_Z (timestamp (hd (sort_key timestamp
        (day_connections loitering_example ''2025-06-23'' ''CC:CC''))))) = Some first_conn \<and>
      fromisoformat py0 (replace_Z (timestamp (last (sort_key timestamp
        (day_connections loitering_example ''2025-06-23'' ''CC:CC''))))) = Some last_conn \<and>
      dt_sub last_conn first_conn = Inr us \<and>
      6 \<le> hour first_conn \<and> hour first_conn < 18 \<and> 18 \<le> hour last_conn \<and>
      8 * 3600 * 1000000 < us)"
    by blast
  with f loitering_example_detect show ?thesis by blast
qed

text \<open>
  C5, as amended. The record of a flagged device holds the hour of its first connection
  as \<^verbatim>\<open>arrived_hour\<close> and the hour of its last connection as \<^verbatim>\<open>departed_hour\<close>; that
  hour is at least 18, since the device would not be flagged otherwise, and below 24,
  as every hour of a \<^verbatim>\<open>datetime\<close> is: the departure hour is never the sentinel 24.
  The alternative of the conditional that gives 24 is taken only for an hour below 18,
  and is never reached.
\<close>

theorem departure_is_last_hour:
  assumes "detect_loitering_patterns py connections D = Inr lds"
    and "d \<in> set lds"
    and "hours_below_24 py"
  shows "\<exists>first_conn last_conn.
           fromisoformat py (replace_Z (timestamp (hd (sort_key timestamp
             (day_connections connections D (mac d)))))) = Some first_conn \<and>
           fromisoformat py (replace_Z (timestamp (last (sort_key timestamp
             (day_connections connections D (mac d)))))) = Some last_conn \<and>
           arrived_hour d = Some (hour first_conn) \<and>
           departed_hour d = Some (hour last_conn) \<and>
           18 \<le> hour last_conn \<and> hour last_conn < 24 \<and>
           departed_hour d \<noteq> Some 24"
proof -
  from assms have "loitering_step py (mac d, day_connections connections D (mac d)) = Inr (Some d)"
    using detect_loitering_member [of py connections D lds d] by simp
  from loitering_step_fields [OF this] obtain first_conn last_conn where
    f: "fromisoformat py (replace_Z (timestamp (hd (sort_key timestamp
             (day_connections connections D (mac d)))))) = Some first_conn"
      "fromisoformat py (replace_Z (timestamp (last (sort_key timestamp
             (day_connections connections D (mac d)))))) = Some last_conn"
      "arrived_hour d = Some (hour first_conn)"
      "departed_hour d = Some (hour last_conn)"
      "18 \<le> hour last_conn"
    by blast
  from assms(3) f(2) have h: "hour last_conn < 24"
    unfolding hours_below_24_def by blast
  with f(4) have "departed_hour d \<noteq> Some 24" by simp
  with f h show ?thesis by blast
qed

theorem departure_is_last_hour_witness:
  "detect_loitering_patterns py0 loitering_example ''2025-06-23'' = Inr [loitering_flag] \<and>
   loitering_flag \<in> set [loitering_flag] \<and>
   hours_below_24 py0 \<and>
   arrived_hour loitering_flag = Some 9 \<and>
   departed_hour loitering_flag = Some 19 \<and>
   departed_hour loitering_flag \<noteq> Some 24 \<and>
   (\<exists>last_conn.
      fromisoformat py0 (replace_Z (timestamp (last (sort_key timestamp
        (day_connections loitering_example ''2025-06-23'' (mac loitering_flag)))))) =
        Some last_conn \<and>
      departed_hour loitering_flag = Some (hour last_conn) \<and>
      18 \<le> hour last_conn \<and> hour last_conn < 24)"
proof -
  have i: "loitering_flag \<in> set [loitering_flag]" by simp
  have h: "arrived_hour loitering_flag = Some 9" "departed_hour loitering_flag = Some 19"
    by (simp_all add: loitering_flag_def)
  note t = departure_is_last_hour [OF loitering_example_detect i py0_hours_below_24]
  from t have n: "departed_hour loitering_flag \<noteq> Some 24" by blast
  from t have "\<exists>last_conn.
      fromisoformat py0 (replace_Z (timestamp (last (sort_key timestamp
        (day_connections loitering_example ''2025-06-23'' (mac loitering_flag)))))) =
        Some last_conn \<and>
      departed_hour loitering_flag = Some (hour last_conn) \<and>
      18 \<le> hour last_conn \<and> hour last_conn < 24"
    by blast
  with i h n loitering_example_detect py0_hours_below_24 show ?thesis by blast
qed

text \<open>
  C5 as stated fails: the device of \<open>loitering_example\<close> is flagged, its last connection
  is at 19:30, and its departure hour is 19, not the sentinel 24.
\<close>

theorem departure_sentinel_counterexample:
  "map_sum id (map risk_explanation)
     (detect_loitering_patterns py0 loitering_example ''2025-06-23'') =
     Inr [LoiteringPattern 9 19 37800000000] \<and>
   map_sum id (map departed_hour)
     (detect_loitering_patterns py0 loitering_example ''2025-06-23'') = Inr [Some 19] \<and>
   map_sum id (map departed_hour)
     (detect_loitering_patterns py0 loitering_example ''2025-06-23'') \<noteq> Inr [Some 24]"
  by (simp add: loitering_example_detect loitering_flag_def)

section \<open>The night cycle\<close>



section \<open>The classification policy\<close>

text \<open>
  C1. When the analysis returns, every MAC that is not empty and has a connection in
  the target night has a record in \<^verbatim>\<open>target_date_devices\<close>, and every record of that
  MAC there holds its counts and the level of the first rule that matches: a loitering
  flag gives \<^verbatim>\<open>LOITERING_SUSPICIOUS\<close>; else no baseline connection gives
  \<^verbatim>\<open>ANOMALOUS_SUSPICIOUS\<close>; else a baseline connection and two days seen give
  \<^verbatim>\<open>BASELINE_REGULAR\<close>; else three baseline connections give \<^verbatim>\<open>BASELINE_REGULAR\<close>;
  else \<^verbatim>\<open>ANOMALOUS_SUSPICIOUS\<close>. The fourth rule comes before the fifth also for a
  device seen on a single day, as in \<open>single_day_example\<close>.
\<close>

theorem classification_policy:
  assumes "analyze_out_of_hours_patterns py connections target_date today = Inr a"
    and "D = resolve_target_date connections target_date today"
    and "fromisoformat py D = Some tdt" and "add_one_day tdt = Inr ndt"
    and "m \<noteq> []"
    and "0 < target_count py connections D (strftime_ymd py ndt) m"
  shows "(\<exists>d \<in> set (target_date_devices a). mac d = m) \<and>
         (\<forall>d \<in> set (target_date_devices a). mac d = m \<longrightarrow>
            target_date_connections d = target_count py connections D (strftime_ymd py ndt) m \<and>
            baseline_connections d = baseline_count py connections D (strftime_ymd py ndt) m \<and>
            days_seen_out_of_hours d = days_seen py connections m \<and>
            risk_level d =
              Some (if m \<in> mac ` set (loitering_devices a) then LOITERING_SUSPICIOUS
                    else if baseline_connections d = 0 then ANOMALOUS_SUSPICIOUS
                    else if baseline_connections d \<ge> 1 \<and> days_seen_out_of_hours d \<ge> 2
                         then BASELINE_REGULAR
                    else if baseline_connections d \<ge> 3 then BASELINE_REGULAR
                    else ANOMALOUS_SUSPICIOUS))"
proof (intro conjI ballI impI)
  from analysis_devices [OF assms(1)] obtain lds st where
    s: "analyze_state py connections target_date today = Inr (lds, st)"
    and b: "target_date_devices a = map (\<lambda>r. heap st ! r) (target_date_refs st)"
    by blast
  from analyze_state_target_mac [OF s assms(2-6)]
  show "\<exists>d \<in> set (target_date_devices a). mac d = m"
    by (auto simp: b)
next
  fix d assume d: "d \<in> set (target_date_devices a)" "mac d = m"
  from target_bucket_record [OF assms(1-4) d(1)]
  have t: "target_record (loitering_devices a) m
           (pattern_of py D (strftime_ymd py ndt) (out_of_hours_of py connections m)) d"
    by (simp add: d(2))
  then show "target_date_connections d = target_count py connections D (strftime_ymd py ndt) m"
    "baseline_connections d = baseline_count py connections D (strftime_ymd py ndt) m"
    "days_seen_out_of_hours d = days_seen py connections m"
    by (simp_all add: target_record_def pattern_of_def target_count_def baseline_count_def
        days_seen_def)
  from target_record_level [OF t]
  show "risk_level d =
              Some (if m \<in> mac ` set (loitering_devices a) then LOITERING_SUSPICIOUS
                    else if baseline_connections d = 0 then ANOMALOUS_SUSPICIOUS
                    else if baseline_connections d \<ge> 1 \<and> days_seen_out_of_hours d \<ge> 2
                         then BASELINE_REGULAR
                    else if baseline_connections d \<ge> 3 then BASELINE_REGULAR
                    else ANOMALOUS_SUSPICIOUS)"
    by (simp add: d(2))
qed

theorem classification_policy_witness:
  "analyze_out_of_hours_patterns py0 single_day_example ''2025-06-23'' [] =
     Inr single_day_analysis \<and>
   fromisoformat py0 ''2025-06-23'' = Some example_date \<and>
   add_one_day example_date = Inr example_next_date \<and>
   0 < target_count py0 single_day_example ''2025-06-23'' (strftime_ymd py0 example_next_date)
         ''DD:DD'' \<and>
   (\<exists>d \<in> set (target_date_devices single_day_analysis).
      mac d = ''DD:DD'' \<and> baseline_connections d = 3 \<and> days_seen_out_of_hours d = 1 \<and>
      risk_level d = Some BASELINE_REGULAR)"
proof -
  have D: "''2025-06-23'' = resolve_target_date single_day_example ''2025-06-23'' []"
    by (simp add: resolve_target_date_def)
  have m: "''DD:DD'' \<noteq> []" by simp
  have tc: "0 < target_count py0 single_day_example ''2025-06-23''
                  (strftime_ymd py0 example_next_date) ''DD:DD''"
    by (simp add: example_next_day_str single_day_counts)
  note t = classification_policy [OF single_day_example_analysis D example_date_parse
      example_next_day m tc]
  from t obtain d where d: "d \<in> set (target_date_devices single_day_analysis)"
    "mac d = ''DD:DD''" by blast
  with t have f:
    "baseline_connections d =
       baseline_count py0 single_day_example ''2025-06-23'' (strftime_ymd py0 example_next_date)
         ''DD:DD''"
    "days_seen_out_of_hours d = days_seen py0 single_day_example ''DD:DD''"
    "risk_level d =
       Some (if ''DD:DD'' \<in> mac ` set (loitering_devices single_day_analysis)
             then LOITERING_SUSPICIOUS
             else if baseline_connections d = 0 then ANOMALOUS_SUSPICIOUS
             else if baseline_connections d \<ge> 1 \<and> days_seen_out_of_hours d \<ge> 2
                  then BASELINE_REGULAR
             else if baseline_connections d \<ge> 3 then BASELINE_REGULAR
             else ANOMALOUS_SUSPICIOUS)"
    by blast+
  from f(1,2) have c: "baseline_connections d = 3" "days_seen_out_of_hours d = 1"
    by (simp_all add: example_next_day_str single_day_counts)
  with f(3) have "risk_level d = Some BASELINE_REGULAR"
    by (simp add: single_day_analysis_def)
  with d c single_day_example_analysis example_date_parse example_next_day tc
  show ?thesis by blast
qed

text \<open>
  C2, as amended. When the analysis returns, every MAC that is not empty, has a
  connection in the target night, has no baseline connection and is not flagged by the
  loitering detector has a record in \<^verbatim>\<open>target_date_devices\<close>, and every record of that
  MAC there has the level \<^verbatim>\<open>ANOMALOUS_SUSPICIOUS\<close> and is in \<^verbatim>\<open>anomalous_devices\<close>.
\<close>

theorem zero_baseline_anomalous:
  assumes "analyze_out_of_hours_patterns py connections target_date today = Inr a"
    and "D = resolve_target_date connections target_date today"
    and "fromisoformat py D = Some tdt" and "add_one_day tdt = Inr ndt"
    and "m \<noteq> []"
    and "0 < target_count py connections D (strftime_ymd py ndt) m"
    and "baseline_count py connections D (strftime_ymd py ndt) m = 0"
    and "m \<notin> mac ` set (loitering_devices a)"
  shows "(\<exists>d \<in> set (target_date_devices a). mac d = m) \<and>
         (\<forall>d \<in> set (target_date_devices a). mac d = m \<longrightarrow>
            risk_level d = Some ANOMALOUS_SUSPICIOUS \<and> d \<in> set (anomalous_devices a))"
proof (intro conjI ballI impI)
  from analysis_devices [OF assms(1)] obtain lds st where
    s: "analyze_state py connections target_date today = Inr (lds, st)"
    and b: "target_date_devices a = map (\<lambda>r. heap st ! r) (target_date_refs st)"
    by blast
  from analyze_state_target_mac [OF s assms(2-6)]
  show "\<exists>d \<in> set (target_date_devices a). mac d = m"
    by (auto simp: b)
next
  fix d assume d: "d \<in> set (target_date_devices a)" "mac d = m"
  from target_bucket_record [OF assms(1-4) d(1)]
  have t: "target_record (loitering_devices a) m
           (pattern_of py D (strftime_ymd py ndt) (out_of_hours_of py connections m)) d"
    and bucket: "if risk_level d = Some BASELINE_REGULAR
          then d \<in> set (baseline_regular_devices a) else d \<in> set (anomalous_devices a)"
    by (simp_all add: d(2))
  from t assms(7) have "baseline_connections d = 0"
    by (simp add: target_record_def pattern_of_def baseline_count_def)
  with target_record_level [OF t] assms(8)
  show l: "risk_level d = Some ANOMALOUS_SUSPICIOUS" by (simp add: d(2))
  with bucket show "d \<in> set (anomalous_devices a)" by simp
qed

theorem zero_baseline_anomalous_witness:
  "analyze_out_of_hours_patterns py0 next_morning_example ''2025-06-23'' [] =
     Inr next_morning_analysis \<and>
   fromisoformat py0 ''2025-06-23'' = Some example_date \<and>
   add_one_day example_date = Inr example_next_date \<and>
   0 < target_count py0 next_morning_example ''2025-06-23'' (strftime_ymd py0 example_next_date)
         ''BB:BB'' \<and>
   baseline_count py0 next_morning_example ''2025-06-23'' (strftime_ymd py0 example_next_date)
     ''BB:BB'' = 0 \<and>
   ''BB:BB'' \<notin> mac ` set (loitering_devices next_morning_analysis) \<and>
   (\<exists>d \<in> set (target_date_devices next_morning_analysis).
      mac d = ''BB:BB'' \<and> risk_level d = Some ANOMALOUS_SUSPICIOUS \<and>
      d \<in> set (anomalous_devices next_morning_analysis))"
proof -
  have D: "''2025-06-23'' = resolve_target_date next_morning_example ''2025-06-23'' []"
    by (simp add: resolve_target_date_def)
  have m: "''BB:BB'' \<noteq> []" by simp
  have tc: "0 < target_count py0 next_morning_example ''2025-06-23''
                  (strftime_ymd py0 example_next_date) ''BB:BB''"
    by (simp add: example_next_day_str next_morning_counts)
  have bc: "baseline_count py0 next_morning_example ''2025-06-23''
                  (strftime_ymd py0 example_next_date) ''BB:BB'' = 0"
    by (simp add: example_next_day_str next_morning_counts)
  have nf: "''BB:BB'' \<notin> mac ` set (loitering_devices next_morning_analysis)"
    by (simp add: next_morning_analysis_def)
  note t = zero_baseline_anomalous [OF next_morning_example_analysis D example_date_parse
      example_next_day m tc bc nf]
  from t obtain d where d: "d \<in> set (target_date_devices next_morning_analysis)"
    "mac d = ''BB:BB''" by blast
  with t have "risk_level d = Some ANOMALOUS_SUSPICIOUS"
    "d \<in> set (anomalous_devices next_morning_analysis)" by blast+
  with d next_morning_example_analysis example_date_parse example_next_day tc bc nf
  show ?thesis by blast
qed

text \<open>
  C2 as stated fails: the device of \<open>loitering_example\<close> has one connection in the target
  night and no baseline connection, and its level is \<^verbatim>\<open>LOITERING_SUSPICIOUS\<close>.
\<close>

theorem zero_baseline_counterexample:
  "target_count py0 loitering_example ''2025-06-23'' ''2025-06-24'' ''CC:CC'' = 1 \<and>
   baseline_count py0 loitering_example ''2025-06-23'' ''2025-06-24'' ''CC:CC'' = 0 \<and>
   map_sum id (map mac \<circ> target_date_devices)
     (analyze_out_of_hours_patterns py0 loitering_example ''2025-06-23'' []) =
     Inr [''CC:CC''] \<and>
   map_sum id (map risk_level \<circ> target_date_devices)
     (analyze_out_of_hours_patterns py0 loitering_example ''2025-06-23'' []) =
     Inr [Some LOITERING_SUSPICIOUS] \<and>
   map_sum id (map risk_level \<circ> target_date_devices)
     (analyze_out_of_hours_patterns py0 loitering_example ''2025-06-23'' []) \<noteq>
     Inr [Some ANOMALOUS_SUSPICIOUS]"
  by (simp add: loitering_example_counts loitering_example_analysis loitering_analysis_def
      loitering_info_def)

text \<open>
  C3. When the analysis returns, every device that the loitering detector flags has a
  record in \<^verbatim>\<open>target_date_devices\<close>, whatever its baseline count and days seen are, and
  every record of its MAC there has the level \<^verbatim>\<open>LOITERING_SUSPICIOUS\<close>, the explanation,
  duration, arrival hour and departure hour of the detector's record, and is in
  \<^verbatim>\<open>anomalous_devices\<close>.
\<close>

theorem loitering_precedence:
  assumes "analyze_out_of_hours_patterns py connections target_date today = Inr a"
    and "ld \<in> set (loitering_devices a)"
  shows "(\<exists>d \<in> set (target_date_devices a). mac d = mac ld) \<and>
         (\<forall>d \<in> set (target_date_devices a). mac d = mac ld \<longrightarrow>
            risk_level d = Some LOITERING_SUSPICIOUS \<and>
            risk_explanation d = risk_explanation ld \<and>
            duration_hours d = duration_hours ld \<and>
            arrived_hour d = arrived_hour ld \<and>
            departed_hour d = departed_hour ld \<and>
            d \<in> set (anomalous_devices a))"
proof -
  define D where "D = resolve_target_date connections target_date today"
  from analysis_devices [OF assms(1)] obtain lds st where
    s: "analyze_state py connections target_date today = Inr (lds, st)"
    and b: "loitering_devices a = lds"
      "target_date_devices a = map (\<lambda>r. heap st ! r) (target_date_refs st)"
    by blast
  from analyze_state_parts [OF s] obtain pats where
    bd: "build_device_patterns py connections D = Inr pats"
    and det: "detect_loitering_patterns py connections D = Inr lds"
    unfolding D_def by blast
  from assms(2) have ld: "ld \<in> set lds" by (simp add: b(1))
  from flagged_has_target [OF det ld] have m: "mac ld \<noteq> []"
    and tc: "\<And>nd. 0 < target_count py connections D nd (mac ld)"
    by simp_all
  from tc [of "[]"] have "out_of_hours_of py connections (mac ld) \<noteq> []"
    by (auto simp: target_count_def)
  from build_needs_night [OF bd m this] obtain tdt ndt where
    n: "fromisoformat py D = Some tdt" "add_one_day tdt = Inr ndt" by blast
  have found: "find (\<lambda>x. mac x = mac ld) lds = Some ld"
    using detect_loitering_distinct [OF det] ld by (rule find_distinct)
  show ?thesis
  proof (intro conjI ballI impI)
    from analyze_state_target_mac [OF s D_def n m tc]
    show "\<exists>d \<in> set (target_date_devices a). mac d = mac ld"
      by (auto simp: b(2))
  next
    fix d assume d: "d \<in> set (target_date_devices a)" "mac d = mac ld"
    from target_bucket_record [OF assms(1) D_def n d(1)]
    have t: "target_record lds (mac ld)
           (pattern_of py D (strftime_ymd py ndt) (out_of_hours_of py connections (mac ld))) d"
      and bucket: "if risk_level d = Some BASELINE_REGULAR
          then d \<in> set (baseline_regular_devices a) else d \<in> set (anomalous_devices a)"
      by (simp_all add: d(2) b(1))
    from t found show l: "risk_level d = Some LOITERING_SUSPICIOUS"
      and "risk_explanation d = risk_explanation ld"
      and "duration_hours d = duration_hours ld"
      and "arrived_hour d = arrived_hour ld"
      and "departed_hour d = departed_hour ld"
      by (simp_all add: target_record_def)
    with bucket show "d \<in> set (anomalous_devices a)" by simp
  qed
qed

theorem loitering_precedence_witness:
  "analyze_out_of_hours_patterns py0 loitering_example ''2025-06-23'' [] =
     Inr loitering_analysis \<and>
   loitering_flag \<in> set (loitering_devices loitering_analysis) \<and>
   (\<exists>d \<in> set (target_date_devices loitering_analysis).
      mac d = ''CC:CC'' \<and> risk_level d = Some LOITERING_SUSPICIOUS \<and>
      risk_explanation d = LoiteringPattern 9 19 37800000000)"
proof -
  have i: "loitering_flag \<in> set (loitering_devices loitering_analysis)"
    by (simp add: loitering_analysis_def)
  note t = loitering_precedence [OF loitering_example_analysis i]
  from t obtain d where d: "d \<in> set (target_date_devices loitering_analysis)"
    "mac d = mac loitering_flag" by blast
  with t have "risk_level d = Some LOITERING_SUSPICIOUS"
    "risk_explanation d = risk_explanation loitering_flag" by blast+
  with d have "mac d = ''CC:CC''" "risk_level d = Some LOITERING_SUSPICIOUS"
    "risk_explanation d = LoiteringPattern 9 19 37800000000"
    by (simp_all add: loitering_flag_def)
  with d(1) i loitering_example_analysis show ?thesis by blast
qed

text \<open>
  C10. At the return of the analysis, every address in \<^verbatim>\<open>target_date_devices\<close> is the
  address of an object of the heap whose level is no longer the interim
  \<^verbatim>\<open>TARGET_DATE\<close> but the level of the matched rule, and the same address, hence the same
  object, is in the bucket of that rule: \<^verbatim>\<open>anomalous_devices\<close> for
  \<^verbatim>\<open>LOITERING_SUSPICIOUS\<close> and \<^verbatim>\<open>ANOMALOUS_SUSPICIOUS\<close>, \<^verbatim>\<open>baseline_regular_devices\<close>
  for \<^verbatim>\<open>BASELINE_REGULAR\<close>.
\<close>

theorem target_bucket_shares_record:
  assumes "analyze_state py connections target_date today = Inr (lds, st)"
    and "r \<in> set (target_date_refs st)"
  shows "r < length (heap st) \<and>
         risk_level (heap st ! r) \<noteq> Some TARGET_DATE \<and>
         risk_level (heap st ! r) =
           Some (if mac (heap st ! r) \<in> mac ` set lds then LOITERING_SUSPICIOUS
                 else if baseline_connections (heap st ! r) = 0 then ANOMALOUS_SUSPICIOUS
                 else if baseline_connections (heap st ! r) \<ge> 1 \<and>
                         days_seen_out_of_hours (heap st ! r) \<ge> 2 then BASELINE_REGULAR
                 else if baseline_connections (heap st ! r) \<ge> 3 then BASELINE_REGULAR
                 else ANOMALOUS_SUSPICIOUS) \<and>
         ((risk_level (heap st ! r) = Some LOITERING_SUSPICIOUS \<and> r \<in> set (anomalous_refs st)) \<or>
          (risk_level (heap st ! r) = Some ANOMALOUS_SUSPICIOUS \<and> r \<in> set (anomalous_refs st)) \<or>
          (risk_level (heap st ! r) = Some BASELINE_REGULAR \<and>
             r \<in> set (baseline_regular_refs st)))"
proof -
  from analyze_state_refs [OF assms refl] obtain data where
    lt: "r < length (heap st)"
    and t: "target_record lds (mac (heap st ! r)) data (heap st ! r)"
    and bucket: "if risk_level (heap st ! r) = Some BASELINE_REGULAR
            then r \<in> set (baseline_regular_refs st) else r \<in> set (anomalous_refs st)"
    by blast
  note l = target_record_level [OF t]
  from l have "risk_level (heap st ! r) \<noteq> Some TARGET_DATE"
    by (simp split: if_splits)
  moreover from l bucket have
    "(risk_level (heap st ! r) = Some LOITERING_SUSPICIOUS \<and> r \<in> set (anomalous_refs st)) \<or>
     (risk_level (heap st ! r) = Some ANOMALOUS_SUSPICIOUS \<and> r \<in> set (anomalous_refs st)) \<or>
     (risk_level (heap st ! r) = Some BASELINE_REGULAR \<and> r \<in> set (baseline_regular_refs st))"
    by (auto split: if_splits)
  ultimately show ?thesis using lt l by blast
qed

theorem target_bucket_shares_record_witness:
  "analyze_state py0 loitering_example ''2025-06-23'' [] =
     Inr ([loitering_flag], loitering_state) \<and>
   0 \<in> set (target_date_refs loitering_state) \<and>
   0 < length (heap loitering_state) \<and>
   0 \<in> set (anomalous_refs loitering_state) \<and>
   risk_level (heap loitering_state ! 0) = Some LOITERING_SUSPICIOUS \<and>
   risk_level (heap loitering_state ! 0) \<noteq> Some TARGET_DATE"
proof -
  have r: "0 \<in> set (target_date_refs loitering_state)"
    by (simp add: loitering_state_def)
  have l: "risk_level (heap loitering_state ! 0) = Some LOITERING_SUSPICIOUS"
    by (simp add: loitering_state_def loitering_info_def)
  from target_bucket_shares_record [OF loitering_example_state r] l
  have "0 < length (heap loitering_state)"
    "risk_level (heap loitering_state ! 0) \<noteq> Some TARGET_DATE"
    "0 \<in> set (anomalous_refs loitering_state)"
    by simp_all
  with r l loitering_example_state show ?thesis by blast
qed

section \<open>The extended-session report\<close>

text \<open>
  The detector itself flags a MAC exactly when it is not empty, has at least two
  connections dated the target date, the first of them in business hours and the last
  at hour 18 or later; the duration plays no part.
\<close>

lemma extended_loop_result:
  "extended_loop py gs acc = Inr es \<Longrightarrow>
   es = acc @ concat (map (\<lambda>g. case extended_step py g of Inr (Some d) \<Rightarrow> [d] | _ \<Rightarrow> []) gs)"
proof (induction gs arbitrary: acc)
  case Nil
  then show ?case by simp
next
  case (Cons g gs)
  show ?case
  proof (cases "extended_step py g")
    case (Inl e)
    with Cons.prems show ?thesis by simp
  next
    case (Inr res)
    show ?thesis
    proof (cases res)
      case None
      with Inr Cons.prems Cons.IH [of acc] show ?thesis by simp
    next
      case (Some d)
      with Inr Cons.prems Cons.IH [of "acc @ [d]"] show ?thesis by simp
    qed
  qed
qed

lemma extended_step_mac: "extended_step py g = Inr (Some d) \<Longrightarrow> es_mac d = fst g"
  by (auto simp: extended_step_def Let_def split: if_splits option.splits sum.splits)

lemma extended_step_flags:
  assumes "extended_step py (m, cs) = Inr res"
  shows "res \<noteq> None \<longleftrightarrow>
     2 \<le> length cs \<and>
     (\<exists>first_conn last_conn.
        fromisoformat py (replace_Z (timestamp (hd (sort_key timestamp cs)))) = Some first_conn \<and>
        fromisoformat py (replace_Z (timestamp (last (sort_key timestamp cs)))) = Some last_conn \<and>
        6 \<le> hour first_conn \<and> hour first_conn < 18 \<and> 18 \<le> hour last_conn)"
  using assms
  by (auto simp: extended_step_def Let_def is_business_hours_def business_hours_body_def
      split: if_splits option.splits sum.splits)

lemma extended_sessions_flag_iff:
  assumes "analyze_extended_sessions py connections target_date today = Inr es"
    and "D = resolve_target_date connections target_date today"
  shows "m \<in> es_mac ` set es \<longleftrightarrow>
     m \<noteq> [] \<and> 2 \<le> length (day_connections connections D m) \<and>
     (\<exists>first_conn last_conn.
        fromisoformat py (replace_Z (timestamp (hd (sort_key timestamp
          (day_connections connections D m))))) = Some first_conn \<and>
        fromisoformat py (replace_Z (timestamp (last (sort_key timestamp
          (day_connections connections D m))))) = Some last_conn \<and>
        6 \<le> hour first_conn \<and> hour first_conn < 18 \<and> 18 \<le> hour last_conn)"
    (is "?L \<longleftrightarrow> ?R")
proof -
  have loop: "extended_loop py (group_target_day connections D) [] = Inr es"
    using assms by (simp add: analyze_extended_sessions_def)
  have es: "es = concat (map (\<lambda>g. case extended_step py g of Inr (Some d) \<Rightarrow> [d] | _ \<Rightarrow> [])
                     (group_target_day connections D))"
    using extended_loop_result [OF loop] by simp
  have ok: "\<exists>res. extended_step py g = Inr res" if "g \<in> set gs" "extended_loop py gs acc = Inr r"
    for g gs acc r
    using that by (induction gs arbitrary: acc) (auto split: sum.splits option.splits)
  show ?thesis
  proof
    assume ?L
    then obtain d where "d \<in> set es" and d: "es_mac d = m" by auto
    then obtain g where g: "g \<in> set (group_target_day connections D)"
      and s: "extended_step py g = Inr (Some d)"
      unfolding es by (auto split: sum.splits option.splits)
    from s d have "fst g = m" by (simp add: extended_step_mac)
    with g have "(m, snd g) \<in> set (group_target_day connections D)"
      by (metis prod.collapse)
    then have m: "m \<noteq> []" "snd g = day_connections connections D m"
      by (simp_all add: group_target_day_member)
    with s \<open>fst g = m\<close> have "extended_step py (m, day_connections connections D m) = Inr (Some d)"
      by (metis prod.collapse)
    from extended_step_flags [OF this] m(1) show ?R by simp
  next
    assume r: ?R
    then have "day_connections connections D m \<noteq> []" by auto
    with r have g: "(m, day_connections connections D m) \<in> set (group_target_day connections D)"
      by (simp add: group_target_day_member)
    from ok [OF g loop] obtain res where
      s: "extended_step py (m, day_connections connections D m) = Inr res" by blast
    from extended_step_flags [OF s] r obtain d where "res = Some d" by auto
    with s have s': "extended_step py (m, day_connections connections D m) = Inr (Some d)" by simp
    then have "es_mac d = m" by (simp add: extended_step_mac)
    moreover from g s' have "d \<in> set es" unfolding es by force
    ultimately show ?L by auto
  qed
qed

text \<open>
  The dictionary that the analysis returns has five keys, none of which is
  \<^verbatim>\<open>extended_session_devices\<close>: the number that the run reports is zero.
\<close>

lemma extended_sessions_key_absent:
  "map_of (analysis_items a) ''extended_session_devices'' = None \<and>
   report_extended_sessions a = 0"
  by (simp add: analysis_items_def report_extended_sessions_def)

text \<open>
  C8 fails on the code. On \<open>loitering_example\<close> the detector
  \<^verbatim>\<open>analyze_extended_sessions\<close> flags the device, which connects at 09:00 and is last
  seen at 19:30; the run, which never calls the detector, reports no extended-session
  device and exports no \<^verbatim>\<open>extended_session_devices\<close> category.
\<close>

theorem extended_sessions_not_reported:
  "analyze_extended_sessions py0 loitering_example ''2025-06-23'' [] =
     Inr [\<lparr>es_mac = ''CC:CC'', es_description = ''laptop'',
           first_connection = ''2025-06-23T09:00:00.000Z'',
           last_connection = ''2025-06-23T19:30:00.000Z'',
           es_duration_hours = 105, total_connections = 2, connected_hour = 9,
           last_seen_hour = 19, business_hours_start = True, after_hours_activity = True,
           es_risk_explanation = ExtendedSession 9 19 37800000000\<rparr>] \<and>
   run_analysis_report py0 loitering_example ''2025-06-23'' [] =
     Inr (Some \<lparr>extended_session_count = 0,
                exported_categories =
                  [''target_date_devices'', ''anomalous_devices'', ''loitering_devices'']\<rparr>)"
  by code_simp

end
